theory Spec2Isabelle
  imports Complex_Main "HOL-Library.Multiset"
begin

section \<open>JavaScript strings\<close>

text \<open>
  The script \<^verbatim>\<open>src/js/main.js\<close> works on the values of form controls and on the text
  of table cells. A JavaScript string is a sequence of UTF-16 code units; the model uses
  \<^typ>\<open>string\<close>, whose characters are the code units \<^verbatim>\<open>U+0000\<close> to \<^verbatim>\<open>U+00FF\<close>, so
  \<^verbatim>\<open>.length\<close> is \<^const>\<open>length\<close> and \<^verbatim>\<open>===\<close> on strings is equality.

  \<^verbatim>\<open>String.prototype.trim\<close> removes white space and line terminators from both ends; in
  the modelled range these are TAB, LF, VT, FF, CR, SPACE and NO-BREAK SPACE.
  \<^verbatim>\<open>String.prototype.toLowerCase\<close> maps \<^verbatim>\<open>A\<close>..\<^verbatim>\<open>Z\<close> and the capital letters
  \<^verbatim>\<open>U+00C0\<close>..\<^verbatim>\<open>U+00DE\<close> (without the multiplication sign \<^verbatim>\<open>U+00D7\<close>) to the code unit
  32 places higher and leaves every other code unit of the range alone.
\<close>

definition isWhiteSpace :: "char \<Rightarrow> bool" where
  "isWhiteSpace c = ((of_char c :: nat) \<in> {9, 10, 11, 12, 13, 32, 160})"

definition trim :: "string \<Rightarrow> string" where
  "trim s = rev (dropWhile isWhiteSpace (rev (dropWhile isWhiteSpace s)))"

definition toLowerChar :: "char \<Rightarrow> char" where
  "toLowerChar c =
     (let n = (of_char c :: nat)
      in if (65 \<le> n \<and> n \<le> 90) \<or> (192 \<le> n \<and> n \<le> 222 \<and> n \<noteq> 215)
         then char_of (n + 32) else c)"

definition toLowerCase :: "string \<Rightarrow> string" where
  "toLowerCase s = map toLowerChar s"

text \<open>
  \<^verbatim>\<open>"text" + n\<close> for a non-negative integer \<^verbatim>\<open>n\<close>: the decimal digits of \<^verbatim>\<open>n\<close>.
\<close>

definition digitChar :: "nat \<Rightarrow> char" where
  "digitChar d = char_of (48 + d)"

fun numberToString :: "nat \<Rightarrow> string" where
  "numberToString n =
     (if n < 10 then [digitChar n] else numberToString (n div 10) @ [digitChar (n mod 10)])"

declare numberToString.simps [simp del]

section \<open>Quiz form\<close>

text \<open>
  The submit handler of \<^verbatim>\<open>setupQuizForm\<close> (lines 148 to 204) reads three things from the
  page: the value of the text input \<^verbatim>\<open>#q1\<close>, the checked \<^verbatim>\<open>input[name='q2']\<close> elements
  (\<^verbatim>\<open>querySelectorAll\<close>, a list in document order, here the list of their values) and the
  first checked \<^verbatim>\<open>input[name='q3']\<close> (\<^verbatim>\<open>querySelector\<close>, which gives \<^verbatim>\<open>null\<close> when there is
  none, here \<^const>\<open>None\<close>). It writes the text and the colour of \<^verbatim>\<open>#quiz-result\<close> and may
  move the focus to \<^verbatim>\<open>#q1\<close>.
\<close>

record quiz_form =
  q1Value :: string
  q2Checked :: "string list"
  q3Checked :: "string option"

record quiz_result =
  result_textContent :: string
  result_color :: string
  q1_focus :: bool

text \<open>The block under the comment \<^verbatim>\<open>// Scoring\<close>, lines 180 to 200.\<close>

definition score :: "string \<Rightarrow> string list \<Rightarrow> string \<Rightarrow> nat" where
  "score q1 q2Values q3 =
     (let score0 = 0;
          score1 = (if q1 = ''quality assurance'' then score0 + 1 else score0);
          hasUnit = (''unit'' \<in> set q2Values);
          hasManual = (''manual'' \<in> set q2Values);
          hasCoffee = (''coffee'' \<in> set q2Values);
          score2 = (if hasUnit \<and> hasManual \<and> \<not> hasCoffee then score1 + 1 else score1);
          score3 = (if q3 = ''early'' then score2 + 1 else score2)
      in score3)"

definition quizSubmit :: "quiz_form \<Rightarrow> quiz_result" where
  "quizSubmit f =
     (let q1 = toLowerCase (trim (q1Value f))
      in if q1 = [] then
           \<lparr>result_textContent = ''Please answer question 1.'',
            result_color = ''orange'', q1_focus = True\<rparr>
         else if length (q2Checked f) = 0 then
           \<lparr>result_textContent = ''Please select at least one option for question 2.'',
            result_color = ''orange'', q1_focus = False\<rparr>
         else (case q3Checked f of
             None \<Rightarrow>
               \<lparr>result_textContent = ''Please select an option for question 3.'',
                result_color = ''orange'', q1_focus = False\<rparr>
           | Some q3 \<Rightarrow>
               (let s = score q1 (q2Checked f) q3
                in \<lparr>result_textContent = ''Your score: '' @ numberToString s @ '' / 3'',
                    result_color = (if s = 3 then ''green'' else ''orange''),
                    q1_focus = False\<rparr>)))"

text \<open>The two submissions of the end-to-end examples.\<close>

definition quiz_full_marks :: quiz_form where
  "quiz_full_marks =
     \<lparr>q1Value = ''Quality Assurance'', q2Checked = [''unit'', ''manual''],
      q3Checked = Some ''early''\<rparr>"

definition quiz_with_coffee :: quiz_form where
  "quiz_with_coffee =
     \<lparr>q1Value = ''Quality Assurance'', q2Checked = [''unit'', ''manual'', ''coffee''],
      q3Checked = Some ''early''\<rparr>"

text \<open>Three submissions that fail the first, the second and the third check.\<close>

definition quiz_nothing_answered :: quiz_form where
  "quiz_nothing_answered = \<lparr>q1Value = ''  '', q2Checked = [], q3Checked = None\<rparr>"

definition quiz_only_q1 :: quiz_form where
  "quiz_only_q1 = \<lparr>q1Value = ''testing'', q2Checked = [], q3Checked = None\<rparr>"

definition quiz_no_q3 :: quiz_form where
  "quiz_no_q3 = \<lparr>q1Value = ''testing'', q2Checked = [''coffee''], q3Checked = None\<rparr>"

section \<open>Login form\<close>

text \<open>
  The submit handler of \<^verbatim>\<open>setupLoginForm\<close> (lines 45 to 84) reads the values of
  \<^verbatim>\<open>#login-email\<close> and \<^verbatim>\<open>#login-password\<close> and two verdicts of the browser's constraint
  validation: \<^verbatim>\<open>loginForm.checkValidity()\<close> and \<^verbatim>\<open>emailInput.validity.valid\<close>. Both custom
  validity messages are cleared before the verdicts are read, so the verdicts are those of
  the declared constraints on the untrimmed field values.

  The result records the custom validity message of each input, whether
  \<^verbatim>\<open>reportValidity()\<close> was called, the text and colour of \<^verbatim>\<open>#login-message\<close>, and whether
  control reached the comparison with the demo credentials on line 77.
\<close>

record login_fields =
  emailValue :: string
  passwordValue :: string

record constraint_validation =
  formValid :: bool
  emailValidityValid :: bool

record login_result =
  email_customValidity :: string
  password_customValidity :: string
  reportValidity_called :: bool
  message_textContent :: string
  message_color :: string
  credentials_compared :: bool

definition VALID_EMAIL :: string where
  "VALID_EMAIL = ''tester@example.com''"

definition VALID_PASSWORD :: string where
  "VALID_PASSWORD = ''password123''"

definition loginSubmit :: "constraint_validation \<Rightarrow> login_fields \<Rightarrow> login_result" where
  "loginSubmit v f =
     (let email = trim (emailValue f);
          password = trim (passwordValue f)
      in if \<not> formValid v then
           \<lparr>email_customValidity =
              (if email = [] then ''Email is required.''
               else if \<not> emailValidityValid v then ''Please enter a valid email address.''
               else []),
            password_customValidity =
              (if password = [] then ''Password is required.''
               else if length password < 6 then ''Password must be at least 6 characters.''
               else []),
            reportValidity_called = True,
            message_textContent = ''Please fix the highlighted errors.'',
            message_color = ''red'',
            credentials_compared = False\<rparr>
         else if email = VALID_EMAIL \<and> password = VALID_PASSWORD then
           \<lparr>email_customValidity = [], password_customValidity = [],
            reportValidity_called = False,
            message_textContent = ''Login successful.'',
            message_color = ''green'',
            credentials_compared = True\<rparr>
         else
           \<lparr>email_customValidity = [], password_customValidity = [],
            reportValidity_called = False,
            message_textContent = ''Invalid credentials.'',
            message_color = ''red'',
            credentials_compared = True\<rparr>)"

subsection \<open>Field validation\<close>

text \<open>
  Modelled from the spec: the inputs of the login form and of the form-state scenario are
  declared in \<^verbatim>\<open>index.html\<close> and \<^verbatim>\<open>practice-2.html\<close>, which are not among the sources, and
  the script only reads the verdicts the browser derives from those declarations. The
  verdicts follow section 4.1 of the specification. An e-mail value has the standard shape
  when it is \<^verbatim>\<open>local@domain\<close> with at least one dot in the domain: it contains no white
  space and exactly one \<^verbatim>\<open>@\<close>, the part before the \<^verbatim>\<open>@\<close>, the local part, is not empty, and
  the part after it, the domain, contains a dot. An e-mail value is valid iff it is
  non-empty and has that shape; a password is valid iff its length is at least the
  configured minimum, which is 6 for the login form. The verdicts judge the value of a
  field as it stands, untrimmed.
\<close>

definition localPart :: "string \<Rightarrow> string" where
  "localPart v = takeWhile (\<lambda>c. c \<noteq> CHR ''@'') v"

definition domainPart :: "string \<Rightarrow> string" where
  "domainPart v = drop 1 (dropWhile (\<lambda>c. c \<noteq> CHR ''@'') v)"

definition emailShape :: "string \<Rightarrow> bool" where
  "emailShape v \<longleftrightarrow>
     \<not> list_ex isWhiteSpace v
     \<and> CHR ''@'' \<in> set v
     \<and> localPart v \<noteq> []
     \<and> CHR ''@'' \<notin> set (domainPart v)
     \<and> CHR ''.'' \<in> set (domainPart v)"

definition validateEmail :: "string \<Rightarrow> bool" where
  "validateEmail v \<longleftrightarrow> v \<noteq> [] \<and> emailShape v"

definition validatePassword :: "nat \<Rightarrow> string \<Rightarrow> bool" where
  "validatePassword minimum v \<longleftrightarrow> minimum \<le> length v"

text \<open>
  Modelled from the spec: the verdicts for the login form, whose two fields are both
  required (the handler words its messages so).
\<close>

definition loginValidation :: "login_fields \<Rightarrow> constraint_validation" where
  "loginValidation f =
     \<lparr>formValid = (validateEmail (emailValue f) \<and> validatePassword 6 (passwordValue f)),
      emailValidityValid = validateEmail (emailValue f)\<rparr>"

text \<open>
  Modelled from the spec: \<^verbatim>\<open>validity.valid\<close> of an e-mail input. An empty value violates
  only the \<^verbatim>\<open>required\<close> constraint, when the input declares it; a non-empty value is
  judged by its shape.
\<close>

definition emailInputValidity :: "bool \<Rightarrow> string \<Rightarrow> bool" where
  "emailInputValidity required v = (if v = [] then \<not> required else emailShape v)"




definition paddedLogin :: login_fields where
  "paddedLogin = \<lparr>emailValue = ''tester@example.com'', passwordValue = ''password123   ''\<rparr>"

text \<open>The demo credentials with a no-break space (\<^verbatim>\<open>U+00A0\<close>) in front of the address.\<close>

definition nbspLogin :: login_fields where
  "nbspLogin = \<lparr>emailValue = CHR 0xA0 # ''tester@example.com'', passwordValue = ''password123''\<rparr>"

section \<open>Form state scenario\<close>

text \<open>
  \<^verbatim>\<open>setupFormStateScenario\<close> (lines 265 to 315). The state holds what the handlers read and
  write: the value of \<^verbatim>\<open>#state-email\<close> with the browser's verdict \<^verbatim>\<open>validity.valid\<close> for it,
  the value of \<^verbatim>\<open>#state-password\<close>, the terms checkbox, the \<^verbatim>\<open>disabled\<close> flag of the submit
  button, and the text and \<^verbatim>\<open>style.display\<close> of the two error elements and of the form
  message. An event carries what the browser stored in the control before it called the
  listener. The success message of the source starts with a check mark (\<^verbatim>\<open>U+2713\<close>), which
  lies outside the modelled range of code units and is left out of the text.
\<close>

record state_form =
  state_email_value :: string
  state_email_validity :: bool
  state_password_value :: string
  agree_checked :: bool
  submit_disabled :: bool
  emailError_textContent :: string
  emailError_display :: string
  passwordError_textContent :: string
  passwordError_display :: string
  formMessage_textContent :: string
  formMessage_color :: string

datatype state_event =
  EmailInput string bool
  | PasswordInput string
  | AgreeChange bool
  | FormSubmit

definition emailValid :: "state_form \<Rightarrow> bool" where
  "emailValid s \<longleftrightarrow> state_email_validity s \<and> length (state_email_value s) > 0"

definition passwordValid :: "state_form \<Rightarrow> bool" where
  "passwordValid s \<longleftrightarrow> length (state_password_value s) \<ge> 8"

definition checkFormValidity :: "state_form \<Rightarrow> state_form" where
  "checkFormValidity s =
     s\<lparr>submit_disabled := \<not> (emailValid s \<and> passwordValid s \<and> agree_checked s)\<rparr>"

fun stateFormEvent :: "state_event \<Rightarrow> state_form \<Rightarrow> state_form" where
  "stateFormEvent (EmailInput v ok) s =
     (let s1 = s\<lparr>state_email_value := v, state_email_validity := ok\<rparr>;
          s2 = (if \<not> ok \<and> length v > 0
                then s1\<lparr>emailError_textContent := ''Please enter a valid email address.'',
                        emailError_display := ''block''\<rparr>
                else s1\<lparr>emailError_display := ''none''\<rparr>)
      in checkFormValidity s2)"
| "stateFormEvent (PasswordInput v) s =
     (let s1 = s\<lparr>state_password_value := v\<rparr>;
          s2 = (if length v > 0 \<and> length v < 8
                then s1\<lparr>passwordError_textContent := ''Password must be at least 8 characters.'',
                        passwordError_display := ''block''\<rparr>
                else s1\<lparr>passwordError_display := ''none''\<rparr>)
      in checkFormValidity s2)"
| "stateFormEvent (AgreeChange b) s = checkFormValidity (s\<lparr>agree_checked := b\<rparr>)"
| "stateFormEvent FormSubmit s =
     s\<lparr>formMessage_textContent := ''Form submitted successfully!'',
       formMessage_color := ''green''\<rparr>"

text \<open>
  The events after which the claim about the submit button speaks: the three that have a
  listener calling \<^verbatim>\<open>checkFormValidity\<close>.
\<close>

fun inputOrChange :: "state_event \<Rightarrow> bool" where
  "inputOrChange FormSubmit = False"
| "inputOrChange _ = True"

text \<open>The form as the page shows it before any typing: every field empty, no message.\<close>

definition emptyStateForm :: state_form where
  "emptyStateForm =
     \<lparr>state_email_value = [], state_email_validity = True, state_password_value = [],
      agree_checked = False, submit_disabled = True,
      emailError_textContent = [], emailError_display = [],
      passwordError_textContent = [], passwordError_display = [],
      formMessage_textContent = [], formMessage_color = []\<rparr>"

text \<open>The form after a valid address was typed and the terms were accepted.\<close>

definition filledStateForm :: state_form where
  "filledStateForm =
     stateFormEvent (AgreeChange True)
       (stateFormEvent (EmailInput ''qa@example.com'' True) emptyStateForm)"

section \<open>Sortable table\<close>

text \<open>
  \<^verbatim>\<open>setupSortableTableScenario\<close> (lines 439 to 494). A JavaScript number is either
  \<^verbatim>\<open>NaN\<close>, an infinity or a finite value. The comparator subtracts two numbers and the
  sort reads only the sign of the difference; the sign of a difference of two finite
  doubles is the sign of the exact difference, so finite values are kept exact.
\<close>

datatype jsnum = NaN | NegInfinity | Finite real | PosInfinity

fun jsnum_minus :: "jsnum \<Rightarrow> jsnum \<Rightarrow> jsnum" where
  "jsnum_minus NaN _ = NaN"
| "jsnum_minus _ NaN = NaN"
| "jsnum_minus (Finite x) (Finite y) = Finite (x - y)"
| "jsnum_minus PosInfinity PosInfinity = NaN"
| "jsnum_minus NegInfinity NegInfinity = NaN"
| "jsnum_minus PosInfinity _ = PosInfinity"
| "jsnum_minus NegInfinity _ = NegInfinity"
| "jsnum_minus (Finite x) PosInfinity = NegInfinity"
| "jsnum_minus (Finite x) NegInfinity = PosInfinity"

fun jsnum_uminus :: "jsnum \<Rightarrow> jsnum" where
  "jsnum_uminus NaN = NaN"
| "jsnum_uminus NegInfinity = PosInfinity"
| "jsnum_uminus (Finite x) = Finite (- x)"
| "jsnum_uminus PosInfinity = NegInfinity"

definition isNaN :: "jsnum \<Rightarrow> bool" where
  "isNaN n \<longleftrightarrow> n = NaN"

text \<open>
  Two functions of the host decide how cells compare: \<^verbatim>\<open>parseFloat\<close>, which rounds the
  decimal literal at the start of a text to a double, and \<^verbatim>\<open>String.prototype.localeCompare\<close>,
  whose order is that of the browser's locale. Both are parameters of the model.
\<close>

record host =
  parseFloat :: "string \<Rightarrow> jsnum"
  localeCompare :: "string \<Rightarrow> string \<Rightarrow> int"

datatype sort_direction = Asc | Desc

record sort_state =
  field :: "string option"
  direction :: sort_direction

text \<open>
  The table: the \<^verbatim>\<open>data-sort\<close> attribute of each \<^verbatim>\<open>th.sortable\<close> in document order
  (\<^verbatim>\<open>getAttribute\<close> gives \<^verbatim>\<open>null\<close>, here \<^const>\<open>None\<close>, when the attribute is missing), the
  indicator of each such header (empty, up arrow or down arrow; every sortable header is
  taken to contain its \<^verbatim>\<open>.sort-indicator\<close>), the body rows, each the list of the texts of
  its cells, and the variable \<^verbatim>\<open>currentSort\<close>.
\<close>

record scores_table =
  headers :: "string option list"
  indicators :: "sort_direction option list"
  rows :: "string list list"
  currentSort :: sort_state

datatype js_error = TypeError

text \<open>The callback given to \<^verbatim>\<open>rows.sort\<close>, lines 473 to 489.\<close>

definition compareRows ::
  "host \<Rightarrow> sort_direction \<Rightarrow> nat \<Rightarrow> string list \<Rightarrow> string list \<Rightarrow> jsnum" where
  "compareRows h dir headerIndex rowA rowB =
     (let cellA = trim (rowA ! headerIndex);
          cellB = trim (rowB ! headerIndex);
          numA = parseFloat h cellA;
          numB = parseFloat h cellB;
          comparison =
            (if \<not> isNaN numA \<and> \<not> isNaN numB then jsnum_minus numA numB
             else Finite (of_int (localeCompare h cellA cellB)))
      in if dir = Asc then comparison else jsnum_uminus comparison)"

text \<open>
  \<^verbatim>\<open>Array.prototype.sort\<close> with a callback: a callback result of \<^verbatim>\<open>NaN\<close> counts as zero,
  and the sort is stable. For a consistent callback the result is the one stable sorted
  arrangement, which insertion from the right computes; for an inconsistent callback the
  language leaves the order to the implementation, and the model still inserts.
\<close>

fun notAfter :: "jsnum \<Rightarrow> bool" where
  "notAfter NaN = True"
| "notAfter NegInfinity = True"
| "notAfter (Finite x) = (x \<le> 0)"
| "notAfter PosInfinity = False"

fun insertSorted :: "('a \<Rightarrow> 'a \<Rightarrow> jsnum) \<Rightarrow> 'a \<Rightarrow> 'a list \<Rightarrow> 'a list" where
  "insertSorted cmp x [] = [x]"
| "insertSorted cmp x (y # ys) =
     (if notAfter (cmp x y) then x # y # ys else y # insertSorted cmp x ys)"

definition Array_sort :: "('a \<Rightarrow> 'a \<Rightarrow> jsnum) \<Rightarrow> 'a list \<Rightarrow> 'a list" where
  "Array_sort cmp xs = foldr (insertSorted cmp) xs []"

text \<open>\<^verbatim>\<open>Array.prototype.findIndex\<close>; \<^const>\<open>None\<close> stands for the result \<^verbatim>\<open>-1\<close>.\<close>

fun findIndex :: "('a \<Rightarrow> bool) \<Rightarrow> 'a list \<Rightarrow> nat option" where
  "findIndex P [] = None"
| "findIndex P (x # xs) =
     (if P x then Some 0 else map_option Suc (findIndex P xs))"

text \<open>
  \<^verbatim>\<open>sortTable\<close>, lines 468 to 493. The callback reads
  \<^verbatim>\<open>row.querySelectorAll("td")[headerIndex].textContent\<close>, which raises a \<^verbatim>\<open>TypeError\<close> on a
  row without such a cell. A sort of two or more rows passes every row to the callback, a
  sort of fewer rows passes none; so the call raises iff there are at least two rows and
  one of them lacks the cell. The rows are put back into the body only after the sort.
\<close>

definition sortTable ::
  "host \<Rightarrow> scores_table \<Rightarrow> string option \<Rightarrow> sort_direction \<Rightarrow> js_error + string list list" where
  "sortTable h t fld dir =
     (case findIndex (\<lambda>a. a = fld) (headers t) of
        None \<Rightarrow> (if length (rows t) < 2 then Inr (rows t) else Inl TypeError)
      | Some headerIndex \<Rightarrow>
          (if 2 \<le> length (rows t) \<and> list_ex (\<lambda>r. length r \<le> headerIndex) (rows t)
           then Inl TypeError
           else Inr (Array_sort (compareRows h dir headerIndex) (rows t))))"

text \<open>
  The click listener of the header number \<open>i\<close>, lines 448 to 465. It updates
  \<^verbatim>\<open>currentSort\<close> and the indicators before it sorts, so an error of the sort leaves these
  updated and the rows as they were.
\<close>

definition nextSort :: "sort_state \<Rightarrow> string option \<Rightarrow> sort_state" where
  "nextSort cs sortField =
     (if field cs = sortField
      then cs\<lparr>direction := (if direction cs = Asc then Desc else Asc)\<rparr>
      else cs\<lparr>field := sortField, direction := Asc\<rparr>)"

definition headerClick :: "host \<Rightarrow> nat \<Rightarrow> scores_table \<Rightarrow> scores_table \<times> js_error option" where
  "headerClick h i t =
     (if i < length (headers t) then
        (let sortField = headers t ! i;
             cs = nextSort (currentSort t) sortField;
             t1 = t\<lparr>currentSort := cs,
                    indicators := (map (\<lambda>_. None) (indicators t))[i := Some (direction cs)]\<rparr>
         in case sortTable h t1 sortField (direction cs) of
              Inl e \<Rightarrow> (t1, Some e)
            | Inr rs \<Rightarrow> (t1\<lparr>rows := rs\<rparr>, None))
      else (t, None))"

definition setupSortableTableScenario ::
  "string option list \<Rightarrow> sort_direction option list \<Rightarrow> string list list \<Rightarrow> scores_table" where
  "setupSortableTableScenario hs inds rs =
     \<lparr>headers = hs, indicators = inds, rows = rs,
      currentSort = \<lparr>field = None, direction = Asc\<rparr>\<rparr>"

subsection \<open>A host for the examples\<close>

text \<open>
  \<^verbatim>\<open>parseFloat\<close> skips leading white space and reads the longest prefix that is a decimal
  literal: an optional sign, then \<^verbatim>\<open>Infinity\<close> or decimal digits with an optional fraction
  and an optional exponent; without such a prefix the result is \<^verbatim>\<open>NaN\<close>. The function
  below gives the exact value of the literal, which is the result of \<^verbatim>\<open>parseFloat\<close>
  whenever that value is a double, as for the integers of the examples.
\<close>

definition isDigit :: "char \<Rightarrow> bool" where
  "isDigit c \<longleftrightarrow> 48 \<le> (of_char c :: nat) \<and> (of_char c :: nat) \<le> 57"

definition digitsValue :: "string \<Rightarrow> nat" where
  "digitsValue ds = foldl (\<lambda>a c. 10 * a + (of_char c - 48)) 0 ds"

definition readSign :: "string \<Rightarrow> bool \<times> string" where
  "readSign s =
     (case s of
        [] \<Rightarrow> (False, [])
      | c # r \<Rightarrow>
          if c = CHR ''-'' then (True, r) else if c = CHR ''+'' then (False, r) else (False, s))"

definition readExponent :: "string \<Rightarrow> int" where
  "readExponent s =
     (case s of
        [] \<Rightarrow> 0
      | c # r \<Rightarrow>
          if c = CHR ''e'' \<or> c = CHR ''E'' then
            (let (neg, d) = readSign r; ds = takeWhile isDigit d
             in if ds = [] then 0
                else if neg then - int (digitsValue ds) else int (digitsValue ds))
          else 0)"

definition scale10 :: "real \<Rightarrow> int \<Rightarrow> real" where
  "scale10 x e = (if 0 \<le> e then x * 10 ^ nat e else x / 10 ^ nat (- e))"

definition exactParseFloat :: "string \<Rightarrow> jsnum" where
  "exactParseFloat s =
     (let (neg, u) = readSign (dropWhile isWhiteSpace s)
      in if take 8 u = ''Infinity'' then (if neg then NegInfinity else PosInfinity)
         else
           (let ip = takeWhile isDigit u;
                r1 = dropWhile isDigit u;
                hasDot = (r1 \<noteq> [] \<and> hd r1 = CHR ''.'');
                fp = (if hasDot then takeWhile isDigit (tl r1) else []);
                r2 = (if hasDot then dropWhile isDigit (tl r1) else r1)
            in if ip = [] \<and> fp = [] then NaN
               else
                 (let x = scale10 (real (digitsValue (ip @ fp)))
                            (readExponent r2 - int (length fp))
                  in Finite (if neg then - x else x))))"

text \<open>
  The order of code units stands in for \<^verbatim>\<open>localeCompare\<close> in the examples; the examples
  sort a column of numbers, where the callback never reaches it.
\<close>

fun codeUnitCompare :: "string \<Rightarrow> string \<Rightarrow> int" where
  "codeUnitCompare [] [] = 0"
| "codeUnitCompare [] (b # bs) = - 1"
| "codeUnitCompare (a # as) [] = 1"
| "codeUnitCompare (a # as) (b # bs) =
     (if (of_char a :: nat) < of_char b then - 1
      else if (of_char b :: nat) < of_char a then 1
      else codeUnitCompare as bs)"

definition exampleHost :: host where
  "exampleHost = \<lparr>parseFloat = exactParseFloat, localeCompare = codeUnitCompare\<rparr>"

text \<open>A table of three students with a name column and a score column.\<close>

definition exampleTable :: scores_table where
  "exampleTable =
     setupSortableTableScenario [Some ''name'', Some ''score''] [None, None]
       [[''Carol'', ''85''], [''Alice'', ''92''], [''Bob'', ''78'']]"

text \<open>
  Two clicks on the header number \<open>i\<close>, and the number a row shows in the column \<open>j\<close>
  when its cell parses to a finite number.
\<close>

definition twoClicks :: "host \<Rightarrow> nat \<Rightarrow> scores_table \<Rightarrow> scores_table" where
  "twoClicks h i t = fst (headerClick h i (fst (headerClick h i t)))"

definition cellNumber :: "host \<Rightarrow> nat \<Rightarrow> string list \<Rightarrow> real option" where
  "cellNumber h j r = (case parseFloat h (trim (r ! j)) of Finite x \<Rightarrow> Some x | _ \<Rightarrow> None)"

text \<open>Two rows whose cells in the column \<open>j\<close> are numbers, the first not below the second.\<close>

definition descendingNumbers :: "host \<Rightarrow> nat \<Rightarrow> string list \<Rightarrow> string list \<Rightarrow> bool" where
  "descendingNumbers h j a b =
     (case (cellNumber h j a, cellNumber h j b) of
        (Some x, Some y) \<Rightarrow> y \<le> x
      | _ \<Rightarrow> False)"

section \<open>Pagination\<close>

text \<open>
  \<^verbatim>\<open>setupPaginationScenario\<close> (lines 501 to 583). The state is the variable
  \<^verbatim>\<open>currentPage\<close> together with the elements the functions look up: whether
  \<^verbatim>\<open>#pagination-body\<close>, \<^verbatim>\<open>#pagination-info\<close>, \<^verbatim>\<open>#prev-page\<close> and \<^verbatim>\<open>#next-page\<close> exist on
  the page, the items shown in the body (one table row per item), the text of the info
  element and the \<^verbatim>\<open>disabled\<close> flags of the two buttons.
\<close>

record item =
  item_id :: nat
  item_name :: string
  item_email :: string
  item_role :: string

definition allData :: "item list" where
  "allData =
     [\<lparr>item_id = 1, item_name = ''Alice Johnson'', item_email = ''alice@example.com'', item_role = ''QA Engineer''\<rparr>,
      \<lparr>item_id = 2, item_name = ''Bob Smith'', item_email = ''bob@example.com'', item_role = ''Developer''\<rparr>,
      \<lparr>item_id = 3, item_name = ''Carol White'', item_email = ''carol@example.com'', item_role = ''Product Manager''\<rparr>,
      \<lparr>item_id = 4, item_name = ''David Lee'', item_email = ''david@example.com'', item_role = ''QA Engineer''\<rparr>,
      \<lparr>item_id = 5, item_name = ''Eve Davis'', item_email = ''eve@example.com'', item_role = ''DevOps''\<rparr>,
      \<lparr>item_id = 6, item_name = ''Frank Brown'', item_email = ''frank@example.com'', item_role = ''Developer''\<rparr>,
      \<lparr>item_id = 7, item_name = ''Grace Chen'', item_email = ''grace@example.com'', item_role = ''QA Engineer''\<rparr>,
      \<lparr>item_id = 8, item_name = ''Henry Wilson'', item_email = ''henry@example.com'', item_role = ''Architect''\<rparr>,
      \<lparr>item_id = 9, item_name = ''Iris Taylor'', item_email = ''iris@example.com'', item_role = ''QA Engineer''\<rparr>,
      \<lparr>item_id = 10, item_name = ''Jack Martin'', item_email = ''jack@example.com'', item_role = ''Developer''\<rparr>,
      \<lparr>item_id = 11, item_name = ''Kate Anderson'', item_email = ''kate@example.com'', item_role = ''Manager''\<rparr>,
      \<lparr>item_id = 12, item_name = ''Liam Garcia'', item_email = ''liam@example.com'', item_role = ''QA Engineer''\<rparr>,
      \<lparr>item_id = 13, item_name = ''Maria Rodriguez'', item_email = ''maria@example.com'', item_role = ''Developer''\<rparr>,
      \<lparr>item_id = 14, item_name = ''Nathan Moore'', item_email = ''nathan@example.com'', item_role = ''QA Engineer''\<rparr>,
      \<lparr>item_id = 15, item_name = ''Olivia Jackson'', item_email = ''olivia@example.com'', item_role = ''Product Manager''\<rparr>]"

definition itemsPerPage :: int where
  "itemsPerPage = 5"

text \<open>
  \<^verbatim>\<open>Array.prototype.slice(start, end)\<close>: a negative index counts from the end, and both
  indices are clamped to the array.
\<close>

definition slice :: "'a list \<Rightarrow> int \<Rightarrow> int \<Rightarrow> 'a list" where
  "slice xs start end =
     (let n = int (length xs);
          k = (if start < 0 then max (n + start) 0 else min start n);
          final = (if end < 0 then max (n + end) 0 else min end n)
      in take (nat (final - k)) (drop (nat k) xs))"

definition totalPages :: int where
  "totalPages = \<lceil>real (length allData) / real_of_int itemsPerPage\<rceil>"

definition intToString :: "int \<Rightarrow> string" where
  "intToString i = (if i < 0 then CHR ''-'' # numberToString (nat (- i)) else numberToString (nat i))"

record pagination =
  currentPage :: int
  has_body :: bool
  has_info :: bool
  has_prev :: bool
  has_next :: bool
  body_items :: "item list"
  info_textContent :: string
  prev_disabled :: bool
  next_disabled :: bool

definition renderPage :: "pagination \<Rightarrow> pagination" where
  "renderPage s =
     (if \<not> has_body s then s
      else
        (let startIdx = (currentPage s - 1) * itemsPerPage;
             endIdx = startIdx + itemsPerPage;
             pageData = slice allData startIdx endIdx;
             s1 = s\<lparr>body_items := pageData\<rparr>;
             s2 = (if has_info s
                   then s1\<lparr>info_textContent :=
                          ''Page '' @ intToString (currentPage s) @ '' of '' @ intToString totalPages\<rparr>
                   else s1);
             s3 = (if has_prev s then s2\<lparr>prev_disabled := (currentPage s = 1)\<rparr> else s2);
             s4 = (if has_next s then s3\<lparr>next_disabled := (currentPage s = totalPages)\<rparr> else s3)
         in s4))"

datatype page_button = PrevPage | NextPage

text \<open>
  A click on a button. A listener exists only for a button that exists; a click on a
  disabled button does not reach its listener, and the listeners guard the bounds
  themselves, so the model calls them on every click.
\<close>

fun pageClick :: "page_button \<Rightarrow> pagination \<Rightarrow> pagination" where
  "pageClick PrevPage s =
     (if has_prev s \<and> currentPage s > 1
      then renderPage (s\<lparr>currentPage := currentPage s - 1\<rparr>) else s)"
| "pageClick NextPage s =
     (if has_next s \<and> currentPage s < totalPages
      then renderPage (s\<lparr>currentPage := currentPage s + 1\<rparr>) else s)"

text \<open>
  The setup sets \<^verbatim>\<open>currentPage\<close> to 1 and renders once; its argument is the page as loaded.
\<close>

definition setupPaginationScenario :: "pagination \<Rightarrow> pagination" where
  "setupPaginationScenario loaded = renderPage (loaded\<lparr>currentPage := 1\<rparr>)"

definition clicks :: "page_button list \<Rightarrow> pagination \<Rightarrow> pagination" where
  "clicks bs s = foldl (\<lambda>s b. pageClick b s) s bs"

text \<open>The pagination page: all four elements exist, the body is empty before the setup.\<close>

definition paginationPage :: pagination where
  "paginationPage =
     \<lparr>currentPage = 0, has_body = True, has_info = True, has_prev = True, has_next = True,
      body_items = [], info_textContent = [], prev_disabled = False, next_disabled = False\<rparr>"

text \<open>
  What holds after the setup and after every click: the page number is within bounds, and
  on a page with a body the rendered items are the slice of the current page and each
  existing button is disabled exactly at its end of the range.
\<close>

definition rendered :: "pagination \<Rightarrow> bool" where
  "rendered s \<longleftrightarrow>
     1 \<le> currentPage s \<and> currentPage s \<le> totalPages
     \<and> (has_body s \<longrightarrow>
          body_items s = slice allData ((currentPage s - 1) * itemsPerPage)
                           ((currentPage s - 1) * itemsPerPage + itemsPerPage)
          \<and> (has_prev s \<longrightarrow> (prev_disabled s \<longleftrightarrow> currentPage s = 1))
          \<and> (has_next s \<longrightarrow> (next_disabled s \<longleftrightarrow> currentPage s = totalPages)))"

section \<open>Page initialisation\<close>

text \<open>
  Each \<^verbatim>\<open>setup\<close> function looks elements up with \<^verbatim>\<open>document.getElementById\<close>, which gives
  \<^verbatim>\<open>null\<close> for an id the page does not have, and attaches listeners. A document is the set
  of the ids it has; a setup function gives the listeners it attached, or the error it
  raised: a property read or a method call on \<^verbatim>\<open>null\<close> raises a \<^verbatim>\<open>TypeError\<close>.

  The file holds two scripts. The first (lines 1 to 1006) documents its functions; the
  second (from line 1007, headed \<^verbatim>\<open>StudyHub front-end logic with simple validation\<close>)
  declares \<^verbatim>\<open>setupLoginForm\<close>, \<^verbatim>\<open>setupStudentFilter\<close> and \<^verbatim>\<open>setupQuizForm\<close> again. The login
  and quiz functions are the same in both; names of the second script carry a prime.
\<close>

type_synonym document = "string set"

datatype listener = LoginSubmit | SearchInput | QuizSubmit

definition getElementById :: "document \<Rightarrow> string \<Rightarrow> bool" where
  "getElementById doc i \<longleftrightarrow> i \<in> doc"

text \<open>Lines 33 to 45 and 1017 to 1028: only the form is looked at before the listener is attached.\<close>

definition setupLoginForm :: "document \<Rightarrow> js_error + listener list" where
  "setupLoginForm doc =
     (if \<not> getElementById doc ''login-form'' then Inr [] else Inr [LoginSubmit])"

text \<open>Lines 95 to 105, with the guard on the table.\<close>

definition setupStudentFilter :: "document \<Rightarrow> js_error + listener list" where
  "setupStudentFilter doc =
     (if \<not> getElementById doc ''search-input'' then Inr []
      else if \<not> getElementById doc ''students-table'' then Inr []
      else Inr [SearchInput])"

text \<open>
  Lines 1072 to 1080: \<^verbatim>\<open>table.querySelectorAll("tbody tr")\<close> is called on whatever the lookup
  of \<^verbatim>\<open>students-table\<close> gave.
\<close>

definition setupStudentFilter' :: "document \<Rightarrow> js_error + listener list" where
  "setupStudentFilter' doc =
     (if \<not> getElementById doc ''search-input'' then Inr []
      else if \<not> getElementById doc ''students-table'' then Inl TypeError
      else Inr [SearchInput])"

text \<open>Lines 142 to 148 and 1104 to 1110.\<close>

definition setupQuizForm :: "document \<Rightarrow> js_error + listener list" where
  "setupQuizForm doc =
     (if \<not> getElementById doc ''quiz-form'' then Inr [] else Inr [QuizSubmit])"

text \<open>Running one setup after another: an error ends the listener of \<^verbatim>\<open>DOMContentLoaded\<close>.\<close>

definition andThen ::
  "js_error + listener list \<Rightarrow> (js_error + listener list) \<Rightarrow> js_error + listener list" where
  "andThen a b =
     (case a of
        Inl e \<Rightarrow> Inl e
      | Inr xs \<Rightarrow> (case b of Inl e \<Rightarrow> Inl e | Inr ys \<Rightarrow> Inr (xs @ ys)))"

text \<open>The listener of \<^verbatim>\<open>DOMContentLoaded\<close> of the second script, lines 1009 to 1013.\<close>

definition DOMContentLoaded' :: "document \<Rightarrow> js_error + listener list" where
  "DOMContentLoaded' doc =
     andThen (andThen (setupLoginForm doc) (setupStudentFilter' doc)) (setupQuizForm doc)"

section \<open>Properties of the quiz form\<close>

lemma toLowerCase_Nil_iff: "toLowerCase s = [] \<longleftrightarrow> s = []"
  by (simp add: toLowerCase_def)

lemma numberToString_digits:
  "numberToString 0 = ''0''" "numberToString 1 = ''1''"
  "numberToString 2 = ''2''" "numberToString 3 = ''3''"
  "numberToString (Suc 0) = ''1''" "numberToString (Suc (Suc 0)) = ''2''"
  by code_simp+

lemma quiz_full_marks_result:
  "quizSubmit quiz_full_marks =
     \<lparr>result_textContent = ''Your score: 3 / 3'', result_color = ''green'', q1_focus = False\<rparr>"
  by code_simp

lemma quiz_with_coffee_result:
  "quizSubmit quiz_with_coffee =
     \<lparr>result_textContent = ''Your score: 2 / 3'', result_color = ''orange'', q1_focus = False\<rparr>"
  by code_simp

text \<open>
  Claim C1. For a submission that passes the three required-answer checks, the handler
  shows the score that is the sum of three contributions of 0 or 1: one for a first answer
  that is \<^verbatim>\<open>quality assurance\<close> once trimmed and lowercased, one for a set of checked
  second answers that contains \<^verbatim>\<open>unit\<close> and \<^verbatim>\<open>manual\<close> and does not contain \<^verbatim>\<open>coffee\<close>
  (nothing else in the set matters), one for the third answer \<^verbatim>\<open>early\<close>. The two
  end-to-end submissions score 3 and 2.
\<close>

theorem quiz_score_is_sum:
  assumes "trim (q1Value f) \<noteq> []" and "q2Checked f \<noteq> []" and "q3Checked f = Some q3"
  shows "(quizSubmit f =
           (let s = of_bool (toLowerCase (trim (q1Value f)) = ''quality assurance'')
                  + of_bool ({''unit'', ''manual''} \<subseteq> set (q2Checked f)
                             \<and> ''coffee'' \<notin> set (q2Checked f))
                  + of_bool (q3 = ''early'')
            in \<lparr>result_textContent = ''Your score: '' @ numberToString s @ '' / 3'',
                result_color = (if s = 3 then ''green'' else ''orange''), q1_focus = False\<rparr>))
       \<and> result_textContent (quizSubmit quiz_full_marks) = ''Your score: 3 / 3''
       \<and> result_textContent (quizSubmit quiz_with_coffee) = ''Your score: 2 / 3''"
proof -
  have "toLowerCase (trim (q1Value f)) \<noteq> []"
    using assms(1) by (simp add: toLowerCase_Nil_iff)
  then have "quizSubmit f =
           (let s = of_bool (toLowerCase (trim (q1Value f)) = ''quality assurance'')
                  + of_bool ({''unit'', ''manual''} \<subseteq> set (q2Checked f)
                             \<and> ''coffee'' \<notin> set (q2Checked f))
                  + of_bool (q3 = ''early'')
            in \<lparr>result_textContent = ''Your score: '' @ numberToString s @ '' / 3'',
                result_color = (if s = 3 then ''green'' else ''orange''), q1_focus = False\<rparr>)"
    using assms(2,3) by (simp add: quizSubmit_def score_def Let_def)
  then show ?thesis
    by (simp add: quiz_full_marks_result quiz_with_coffee_result)
qed

theorem quiz_score_is_sum_witness:
  "trim (q1Value quiz_with_coffee) \<noteq> [] \<and> q2Checked quiz_with_coffee \<noteq> []
   \<and> q3Checked quiz_with_coffee = Some ''early''
   \<and> quizSubmit quiz_with_coffee =
       \<lparr>result_textContent = ''Your score: 2 / 3'', result_color = ''orange'', q1_focus = False\<rparr>"
proof -
  have h1: "trim (q1Value quiz_with_coffee) \<noteq> []" by code_simp
  have h2: "q2Checked quiz_with_coffee \<noteq> []" by code_simp
  have h3: "q3Checked quiz_with_coffee = Some ''early''" by code_simp
  have lc: "toLowerCase (trim (q1Value quiz_with_coffee)) = ''quality assurance''" by code_simp
  have q2: "set (q2Checked quiz_with_coffee) = {''unit'', ''manual'', ''coffee''}"
    by (simp add: quiz_with_coffee_def)
  from quiz_score_is_sum [OF h1 h2 h3, THEN conjunct1]
  have "quizSubmit quiz_with_coffee =
       \<lparr>result_textContent = ''Your score: 2 / 3'', result_color = ''orange'', q1_focus = False\<rparr>"
    by (simp add: lc q2 numberToString_digits)
  with h1 h2 h3 show ?thesis by blast
qed

text \<open>
  Claim C2. The handler checks, in this order, that the first answer is not empty after
  trimming, that at least one second answer is checked and that a third answer is
  checked (the third question is a group of radio buttons, of which at most one is
  checked). At the first check that fails it returns with that check's message as its whole
  output; the three messages differ, and a score is shown only when all three checks pass.
\<close>

theorem quiz_preconditions_in_order:
  "(trim (q1Value f) = [] \<longrightarrow>
      quizSubmit f = \<lparr>result_textContent = ''Please answer question 1.'',
                      result_color = ''orange'', q1_focus = True\<rparr>)
   \<and> (trim (q1Value f) \<noteq> [] \<and> q2Checked f = [] \<longrightarrow>
      quizSubmit f = \<lparr>result_textContent = ''Please select at least one option for question 2.'',
                      result_color = ''orange'', q1_focus = False\<rparr>)
   \<and> (trim (q1Value f) \<noteq> [] \<and> q2Checked f \<noteq> [] \<and> q3Checked f = None \<longrightarrow>
      quizSubmit f = \<lparr>result_textContent = ''Please select an option for question 3.'',
                      result_color = ''orange'', q1_focus = False\<rparr>)
   \<and> (take 12 (result_textContent (quizSubmit f)) = ''Your score: '' \<longleftrightarrow>
        trim (q1Value f) \<noteq> [] \<and> q2Checked f \<noteq> [] \<and> q3Checked f \<noteq> None)"
  by (auto simp add: quizSubmit_def Let_def toLowerCase_Nil_iff split: option.splits)

theorem quiz_preconditions_in_order_witness:
  "trim (q1Value quiz_nothing_answered) = []
   \<and> result_textContent (quizSubmit quiz_nothing_answered) = ''Please answer question 1.''
   \<and> trim (q1Value quiz_only_q1) \<noteq> [] \<and> q2Checked quiz_only_q1 = []
   \<and> result_textContent (quizSubmit quiz_only_q1)
       = ''Please select at least one option for question 2.''
   \<and> trim (q1Value quiz_no_q3) \<noteq> [] \<and> q2Checked quiz_no_q3 \<noteq> []
   \<and> q3Checked quiz_no_q3 = None
   \<and> result_textContent (quizSubmit quiz_no_q3) = ''Please select an option for question 3.''"
proof -
  have a: "trim (q1Value quiz_nothing_answered) = []" by code_simp
  have b: "trim (q1Value quiz_only_q1) \<noteq> []" "q2Checked quiz_only_q1 = []" by code_simp+
  have c: "trim (q1Value quiz_no_q3) \<noteq> []" "q2Checked quiz_no_q3 \<noteq> []"
    "q3Checked quiz_no_q3 = None"
    by code_simp+
  from a quiz_preconditions_in_order [of quiz_nothing_answered]
  have 1: "result_textContent (quizSubmit quiz_nothing_answered) = ''Please answer question 1.''"
    by simp
  from b quiz_preconditions_in_order [of quiz_only_q1]
  have 2: "result_textContent (quizSubmit quiz_only_q1)
             = ''Please select at least one option for question 2.''"
    by simp
  from c quiz_preconditions_in_order [of quiz_no_q3]
  have 3: "result_textContent (quizSubmit quiz_no_q3) = ''Please select an option for question 3.''"
    by simp
  from a b c 1 2 3 show ?thesis by blast
qed

section \<open>Properties of the login form\<close>

lemma loginSubmit_valid:
  "formValid v \<Longrightarrow>
     loginSubmit v f =
       (if trim (emailValue f) = VALID_EMAIL \<and> trim (passwordValue f) = VALID_PASSWORD
        then \<lparr>email_customValidity = [], password_customValidity = [],
              reportValidity_called = False, message_textContent = ''Login successful.'',
              message_color = ''green'', credentials_compared = True\<rparr>
        else \<lparr>email_customValidity = [], password_customValidity = [],
              reportValidity_called = False, message_textContent = ''Invalid credentials.'',
              message_color = ''red'', credentials_compared = True\<rparr>)"
  by (simp add: loginSubmit_def Let_def)

lemma loginSubmit_invalid:
  "\<not> formValid v \<Longrightarrow>
     reportValidity_called (loginSubmit v f)
     \<and> message_textContent (loginSubmit v f) = ''Please fix the highlighted errors.''
     \<and> message_color (loginSubmit v f) = ''red''
     \<and> \<not> credentials_compared (loginSubmit v f)
     \<and> password_customValidity (loginSubmit v f) =
         (if trim (passwordValue f) = [] then ''Password is required.''
          else if length (trim (passwordValue f)) < 6 then ''Password must be at least 6 characters.''
          else [])
     \<and> email_customValidity (loginSubmit v f) =
         (if trim (emailValue f) = [] then ''Email is required.''
          else if \<not> emailValidityValid v then ''Please enter a valid email address.''
          else [])"
  by (simp add: loginSubmit_def Let_def)







lemma dropWhile_fixed: "dropWhile P xs = xs \<longleftrightarrow> xs = [] \<or> \<not> P (hd xs)"
  by (cases xs) (auto simp: dropWhile_eq_Cons_conv)

lemma hd_dropEnd:
  "rev (dropWhile P (rev xs)) \<noteq> [] \<Longrightarrow> hd (rev (dropWhile P (rev xs))) = hd xs"
  by (induction xs) (auto simp: dropWhile_append split: if_splits)

lemma trim_no_leading: "dropWhile isWhiteSpace (trim s) = trim s"
proof (cases "trim s = []")
  case True
  then show ?thesis by simp
next
  case False
  let ?t = "dropWhile isWhiteSpace s"
  from False have ne: "rev (dropWhile isWhiteSpace (rev ?t)) \<noteq> []"
    by (simp add: trim_def)
  have "?t \<noteq> []"
  proof
    assume a: "?t = []"
    have "rev (dropWhile isWhiteSpace (rev ?t)) = rev (dropWhile isWhiteSpace (rev []))"
      by (simp only: a)
    with ne show False by simp
  qed
  then have "\<not> isWhiteSpace (hd ?t)" by (rule hd_dropWhile)
  moreover have "hd (trim s) = hd ?t"
    using hd_dropEnd [OF ne] by (simp add: trim_def)
  ultimately show ?thesis by (simp add: dropWhile_fixed)
qed

lemma trim_idem: "trim (trim s) = trim s"
proof -
  have "rev (trim s) = dropWhile isWhiteSpace (rev (dropWhile isWhiteSpace s))"
    by (simp add: trim_def)
  then have "dropWhile isWhiteSpace (rev (trim s)) = rev (trim s)"
    by simp
  then have "rev (dropWhile isWhiteSpace (rev (dropWhile isWhiteSpace (trim s)))) = trim s"
    by (simp add: trim_no_leading)
  then show ?thesis by (simp add: trim_def [of "trim s"])
qed

lemma split_at_end:
  "xs = rev (dropWhile P (rev xs)) @ rev (takeWhile P (rev xs))"
proof -
  have "rev xs = takeWhile P (rev xs) @ dropWhile P (rev xs)"
    by simp
  then have "rev (rev xs) = rev (takeWhile P (rev xs) @ dropWhile P (rev xs))"
    by (rule arg_cong)
  then show ?thesis
    by (simp only: rev_rev_ident rev_append)
qed

lemma trim_decompose:
  "s = takeWhile isWhiteSpace s @ trim s
       @ rev (takeWhile isWhiteSpace (rev (dropWhile isWhiteSpace s)))"
proof -
  let ?t = "dropWhile isWhiteSpace s"
  have "?t = trim s @ rev (takeWhile isWhiteSpace (rev ?t))"
    unfolding trim_def by (rule split_at_end)
  moreover have "s = takeWhile isWhiteSpace s @ ?t" by simp
  ultimately show ?thesis by metis
qed

lemma length_trim_le: "length (trim s) \<le> length s"
proof -
  have "length (trim s) \<le> length (dropWhile isWhiteSpace s)"
    using length_dropWhile_le [of isWhiteSpace "rev (dropWhile isWhiteSpace s)"]
    by (simp add: trim_def)
  also have "\<dots> \<le> length s" by (rule length_dropWhile_le)
  finally show ?thesis .
qed

lemma trim_changes_whitespace:
  assumes "trim e \<noteq> e"
  shows "list_ex isWhiteSpace e"
proof -
  let ?a = "takeWhile isWhiteSpace e"
  let ?b = "rev (takeWhile isWhiteSpace (rev (dropWhile isWhiteSpace e)))"
  have e: "e = ?a @ trim e @ ?b" by (rule trim_decompose)
  have "?a \<noteq> [] \<or> ?b \<noteq> []"
  proof (rule ccontr)
    assume "\<not> (?a \<noteq> [] \<or> ?b \<noteq> [])"
    then have "?a @ trim e @ ?b = trim e" by simp
    with e have "e = trim e" by simp
    with assms show False by simp
  qed
  then obtain c where c: "c \<in> set ?a \<or> c \<in> set ?b"
    by (metis last_in_set)
  then have w: "isWhiteSpace c"
    by (auto dest: set_takeWhileD)
  from c have "c \<in> set (?a @ trim e @ ?b)" by auto
  with e have "c \<in> set e" by simp
  with w show ?thesis by (auto simp: list_ex_iff)
qed

lemma demo_email_valid: "validateEmail VALID_EMAIL"
  by code_simp

lemma demo_trims_valid_iff:
  assumes "trim (emailValue f) = VALID_EMAIL" and "trim (passwordValue f) = VALID_PASSWORD"
  shows "formValid (loginValidation f) \<longleftrightarrow> emailValue f = VALID_EMAIL"
proof
  assume v: "formValid (loginValidation f)"
  show "emailValue f = VALID_EMAIL"
  proof (rule ccontr)
    assume "emailValue f \<noteq> VALID_EMAIL"
    with assms(1) have "trim (emailValue f) \<noteq> emailValue f" by simp
    then have "list_ex isWhiteSpace (emailValue f)" by (rule trim_changes_whitespace)
    then have "\<not> emailShape (emailValue f)" by (simp add: emailShape_def)
    with v show False by (simp add: loginValidation_def validateEmail_def)
  qed
next
  assume e: "emailValue f = VALID_EMAIL"
  have "6 \<le> length (passwordValue f)"
    using length_trim_le [of "passwordValue f"] assms(2) by (simp add: VALID_PASSWORD_def)
  with e demo_email_valid show "formValid (loginValidation f)"
    by (simp add: loginValidation_def validatePassword_def)
qed

text \<open>
  Claim C10, as amended. The handler trims the e-mail and the password first, and its own
  checks and the comparison with the demo credentials use the trimmed values: with the
  same verdicts of the browser, the raw fields and their trimmed copies give the same
  result. The verdict of \<^verbatim>\<open>checkValidity()\<close> on line 56 is about the untrimmed fields. A
  pair of fields whose trimmed values are the demo credentials shows the success message
  iff that verdict passes; when it fails, the pair shows
  \<^verbatim>\<open>Please fix the highlighted errors.\<close> and the credentials are not compared. Under field
  validation the verdict passes for such a pair iff the address itself carries no padding;
  padding of the password does no harm, so the demo password followed by three spaces
  succeeds.
\<close>

theorem login_trims_before_comparing:
  "loginSubmit v f
     = loginSubmit v (f\<lparr>emailValue := trim (emailValue f), passwordValue := trim (passwordValue f)\<rparr>)
   \<and> (trim (emailValue f) = VALID_EMAIL \<and> trim (passwordValue f) = VALID_PASSWORD \<longrightarrow>
        (message_textContent (loginSubmit v f) = ''Login successful.'' \<longleftrightarrow> formValid v)
        \<and> (\<not> formValid v \<longrightarrow>
              message_textContent (loginSubmit v f) = ''Please fix the highlighted errors.''
              \<and> \<not> credentials_compared (loginSubmit v f))
        \<and> (formValid (loginValidation f) \<longleftrightarrow> emailValue f = VALID_EMAIL)
        \<and> (message_textContent (loginSubmit (loginValidation f) f) = ''Login successful.''
              \<longleftrightarrow> emailValue f = VALID_EMAIL))
   \<and> message_textContent (loginSubmit (loginValidation paddedLogin) paddedLogin)
        = ''Login successful.''"
proof -
  have 1: "loginSubmit v f
     = loginSubmit v (f\<lparr>emailValue := trim (emailValue f), passwordValue := trim (passwordValue f)\<rparr>)"
    by (simp add: loginSubmit_def trim_idem)
  have 2: "(message_textContent (loginSubmit v f) = ''Login successful.'' \<longleftrightarrow> formValid v)
        \<and> (\<not> formValid v \<longrightarrow>
              message_textContent (loginSubmit v f) = ''Please fix the highlighted errors.''
              \<and> \<not> credentials_compared (loginSubmit v f))
        \<and> (formValid (loginValidation f) \<longleftrightarrow> emailValue f = VALID_EMAIL)
        \<and> (message_textContent (loginSubmit (loginValidation f) f) = ''Login successful.''
              \<longleftrightarrow> emailValue f = VALID_EMAIL)"
    if h: "trim (emailValue f) = VALID_EMAIL \<and> trim (passwordValue f) = VALID_PASSWORD"
  proof -
    have a: "message_textContent (loginSubmit w f) = ''Login successful.'' \<longleftrightarrow> formValid w" for w
    proof (cases "formValid w")
      case True
      with h show ?thesis by (simp add: loginSubmit_valid)
    next
      case False
      with loginSubmit_invalid [of w f] show ?thesis by simp
    qed
    have b: "message_textContent (loginSubmit v f) = ''Please fix the highlighted errors.''
              \<and> \<not> credentials_compared (loginSubmit v f)" if "\<not> formValid v"
      using that loginSubmit_invalid [of v f] by simp
    have c: "formValid (loginValidation f) \<longleftrightarrow> emailValue f = VALID_EMAIL"
      using h by (simp add: demo_trims_valid_iff)
    from a [of v] a [of "loginValidation f"] b c show ?thesis by blast
  qed
  have 3: "message_textContent (loginSubmit (loginValidation paddedLogin) paddedLogin)
        = ''Login successful.''"
    by code_simp
  from 1 2 3 show ?thesis by blast
qed

theorem login_trims_before_comparing_witness:
  "trim (emailValue paddedLogin) = VALID_EMAIL \<and> trim (passwordValue paddedLogin) = VALID_PASSWORD
   \<and> passwordValue paddedLogin \<noteq> VALID_PASSWORD
   \<and> emailValue paddedLogin = VALID_EMAIL
   \<and> formValid (loginValidation paddedLogin)
   \<and> message_textContent (loginSubmit (loginValidation paddedLogin) paddedLogin)
        = ''Login successful.''
   \<and> trim (emailValue nbspLogin) = VALID_EMAIL \<and> trim (passwordValue nbspLogin) = VALID_PASSWORD
   \<and> emailValue nbspLogin \<noteq> VALID_EMAIL
   \<and> \<not> formValid (loginValidation nbspLogin)
   \<and> message_textContent (loginSubmit (loginValidation nbspLogin) nbspLogin)
        = ''Please fix the highlighted errors.''
   \<and> \<not> credentials_compared (loginSubmit (loginValidation nbspLogin) nbspLogin)"
proof -
  have a: "trim (emailValue paddedLogin) = VALID_EMAIL \<and> trim (passwordValue paddedLogin) = VALID_PASSWORD"
    by code_simp
  have b: "passwordValue paddedLogin \<noteq> VALID_PASSWORD" "emailValue paddedLogin = VALID_EMAIL"
    by code_simp+
  have c: "trim (emailValue nbspLogin) = VALID_EMAIL \<and> trim (passwordValue nbspLogin) = VALID_PASSWORD"
    by code_simp
  have d: "emailValue nbspLogin \<noteq> VALID_EMAIL"
    by code_simp
  from a b(2) login_trims_before_comparing [of "loginValidation paddedLogin" paddedLogin]
  have 1: "formValid (loginValidation paddedLogin)
   \<and> message_textContent (loginSubmit (loginValidation paddedLogin) paddedLogin)
        = ''Login successful.''"
    by blast
  from c d login_trims_before_comparing [of "loginValidation nbspLogin" nbspLogin]
  have 2: "\<not> formValid (loginValidation nbspLogin)
   \<and> message_textContent (loginSubmit (loginValidation nbspLogin) nbspLogin)
        = ''Please fix the highlighted errors.''
   \<and> \<not> credentials_compared (loginSubmit (loginValidation nbspLogin) nbspLogin)"
    by blast
  from a b c d 1 2 show ?thesis by blast
qed

text \<open>
  The claim as stated fails for the demo credentials with a no-break space in front of
  the address: both trimmed values are the demo credentials, the address as typed does not
  pass field validation, and the handler reports the validation error instead of the
  success message.
\<close>

theorem padded_email_not_successful_counterexample:
  "trim (emailValue nbspLogin) = VALID_EMAIL
   \<and> trim (passwordValue nbspLogin) = VALID_PASSWORD
   \<and> message_textContent (loginSubmit (loginValidation nbspLogin) nbspLogin)
        = ''Please fix the highlighted errors.''
   \<and> email_customValidity (loginSubmit (loginValidation nbspLogin) nbspLogin)
        = ''Please enter a valid email address.''
   \<and> message_textContent (loginSubmit (loginValidation nbspLogin) nbspLogin)
        \<noteq> ''Login successful.''"
  by code_simp

section \<open>Properties of the form-state scenario\<close>

lemma checkFormValidity_disabled:
  "submit_disabled (checkFormValidity s) \<longleftrightarrow>
     \<not> ((state_email_validity s \<and> state_email_value s \<noteq> [])
        \<and> 8 \<le> length (state_password_value s) \<and> agree_checked s)"
  by (simp add: checkFormValidity_def emailValid_def passwordValid_def)

lemma checkFormValidity_fields:
  "state_email_value (checkFormValidity s) = state_email_value s"
  "state_email_validity (checkFormValidity s) = state_email_validity s"
  "state_password_value (checkFormValidity s) = state_password_value s"
  "agree_checked (checkFormValidity s) = agree_checked s"
  by (simp_all add: checkFormValidity_def)

text \<open>
  Claim C3. After every input or change event of the form-state scenario the submit button
  is enabled iff the e-mail field is valid and not empty, the password has at least 8
  characters and the terms checkbox is checked; the field an event changes counts with its
  new content, the other two as they were. A password of exactly 8 characters meets the
  bound.
\<close>

theorem submit_enabled_iff_all_valid:
  "(inputOrChange ev \<longrightarrow>
      (\<not> submit_disabled (stateFormEvent ev s) \<longleftrightarrow>
         (state_email_validity (stateFormEvent ev s) \<and> state_email_value (stateFormEvent ev s) \<noteq> [])
         \<and> 8 \<le> length (state_password_value (stateFormEvent ev s))
         \<and> agree_checked (stateFormEvent ev s)))
   \<and> (\<not> submit_disabled (stateFormEvent (EmailInput v ok) s) \<longleftrightarrow>
        (ok \<and> v \<noteq> []) \<and> 8 \<le> length (state_password_value s) \<and> agree_checked s)
   \<and> (\<not> submit_disabled (stateFormEvent (PasswordInput p) s) \<longleftrightarrow>
        (state_email_validity s \<and> state_email_value s \<noteq> []) \<and> 8 \<le> length p \<and> agree_checked s)
   \<and> (\<not> submit_disabled (stateFormEvent (AgreeChange b) s) \<longleftrightarrow>
        (state_email_validity s \<and> state_email_value s \<noteq> [])
        \<and> 8 \<le> length (state_password_value s) \<and> b)"
proof -
  have "\<not> submit_disabled (stateFormEvent ev s) \<longleftrightarrow>
         (state_email_validity (stateFormEvent ev s) \<and> state_email_value (stateFormEvent ev s) \<noteq> [])
         \<and> 8 \<le> length (state_password_value (stateFormEvent ev s))
         \<and> agree_checked (stateFormEvent ev s)" if "inputOrChange ev"
    using that
    by (cases ev) (auto simp add: Let_def checkFormValidity_disabled checkFormValidity_fields)
  moreover have "\<not> submit_disabled (stateFormEvent (EmailInput v ok) s) \<longleftrightarrow>
        (ok \<and> v \<noteq> []) \<and> 8 \<le> length (state_password_value s) \<and> agree_checked s"
    by (auto simp add: Let_def checkFormValidity_disabled)
  moreover have "\<not> submit_disabled (stateFormEvent (PasswordInput p) s) \<longleftrightarrow>
        (state_email_validity s \<and> state_email_value s \<noteq> []) \<and> 8 \<le> length p \<and> agree_checked s"
    by (auto simp add: Let_def checkFormValidity_disabled)
  moreover have "\<not> submit_disabled (stateFormEvent (AgreeChange b) s) \<longleftrightarrow>
        (state_email_validity s \<and> state_email_value s \<noteq> [])
        \<and> 8 \<le> length (state_password_value s) \<and> b"
    by (auto simp add: checkFormValidity_disabled)
  ultimately show ?thesis by blast
qed

theorem submit_enabled_iff_all_valid_witness:
  "inputOrChange (PasswordInput ''12345678'')
   \<and> state_email_validity filledStateForm \<and> state_email_value filledStateForm \<noteq> []
   \<and> agree_checked filledStateForm
   \<and> length ''12345678'' = 8
   \<and> \<not> submit_disabled (stateFormEvent (PasswordInput ''12345678'') filledStateForm)
   \<and> submit_disabled (stateFormEvent (PasswordInput ''1234567'') filledStateForm)"
proof -
  have h: "state_email_validity filledStateForm \<and> state_email_value filledStateForm \<noteq> []
           \<and> agree_checked filledStateForm"
    by code_simp
  have e: "inputOrChange (PasswordInput ''12345678'')" by simp
  from h submit_enabled_iff_all_valid
    [where ev = "PasswordInput ''12345678''" and s = filledStateForm and p = "''12345678''"]
  have 1: "\<not> submit_disabled (stateFormEvent (PasswordInput ''12345678'') filledStateForm)"
    by simp
  from h submit_enabled_iff_all_valid
    [where ev = "PasswordInput ''1234567''" and s = filledStateForm and p = "''1234567''"]
  have 2: "submit_disabled (stateFormEvent (PasswordInput ''1234567'') filledStateForm)"
    by simp
  from h e 1 2 show ?thesis by simp
qed

section \<open>Properties of e-mail validation\<close>

lemma no_at_no_shape: "CHR ''@'' \<notin> set e \<or> CHR ''.'' \<notin> set (domainPart e) \<Longrightarrow> \<not> emailShape e"
  by (auto simp: emailShape_def)

lemma emailValid_after_input:
  "emailValid (stateFormEvent (EmailInput e ok) s) \<longleftrightarrow> ok \<and> e \<noteq> []"
  by (simp add: Let_def emailValid_def checkFormValidity_def)

lemma emailError_after_input:
  "emailError_display (stateFormEvent (EmailInput e ok) s)
     = (if \<not> ok \<and> e \<noteq> [] then ''block'' else ''none'')"
  "emailError_textContent (stateFormEvent (EmailInput e ok) s)
     = (if \<not> ok \<and> e \<noteq> [] then ''Please enter a valid email address.''
        else emailError_textContent s)"
  by (simp_all add: Let_def checkFormValidity_def)

text \<open>
  Claim C5, as amended. A value is classified valid iff it is non-empty and has the shape
  \<^verbatim>\<open>local@domain\<close> with a dot in the domain, so every value without an \<^verbatim>\<open>@\<close> or without a
  dot in its domain is invalid. The login handler then gives the reason
  \<^verbatim>\<open>Email is required.\<close> when the trimmed value is empty and
  \<^verbatim>\<open>Please enter a valid email address.\<close> otherwise. The form-state scenario keeps the
  submit button disabled, shows \<^verbatim>\<open>Please enter a valid email address.\<close> for a non-empty
  value and hides its error element, leaving the text alone, for an empty one.
\<close>

theorem email_validation_reasons:
  "(emailValid (stateFormEvent (EmailInput e (emailInputValidity required e)) s)
      \<longleftrightarrow> e \<noteq> [] \<and> emailShape e)
   \<and> (emailValidityValid (loginValidation f) \<longleftrightarrow> emailValue f \<noteq> [] \<and> emailShape (emailValue f))
   \<and> (CHR ''@'' \<notin> set (emailValue f) \<or> CHR ''.'' \<notin> set (domainPart (emailValue f)) \<longrightarrow>
        \<not> validateEmail (emailValue f)
        \<and> message_textContent (loginSubmit (loginValidation f) f)
            = ''Please fix the highlighted errors.''
        \<and> email_customValidity (loginSubmit (loginValidation f) f)
            = (if trim (emailValue f) = [] then ''Email is required.''
               else ''Please enter a valid email address.''))
   \<and> (CHR ''@'' \<notin> set e \<or> CHR ''.'' \<notin> set (domainPart e) \<longrightarrow>
        \<not> emailValid (stateFormEvent (EmailInput e (emailInputValidity required e)) s)
        \<and> submit_disabled (stateFormEvent (EmailInput e (emailInputValidity required e)) s)
        \<and> emailError_display (stateFormEvent (EmailInput e (emailInputValidity required e)) s)
            = (if e = [] then ''none'' else ''block'')
        \<and> emailError_textContent (stateFormEvent (EmailInput e (emailInputValidity required e)) s)
            = (if e = [] then emailError_textContent s
               else ''Please enter a valid email address.''))"
proof -
  have 1: "emailValid (stateFormEvent (EmailInput e (emailInputValidity required e)) s)
      \<longleftrightarrow> e \<noteq> [] \<and> emailShape e"
    by (auto simp: emailValid_after_input emailInputValidity_def simp del: stateFormEvent.simps)
  have 2: "emailValidityValid (loginValidation f) \<longleftrightarrow> emailValue f \<noteq> [] \<and> emailShape (emailValue f)"
    by (simp add: loginValidation_def validateEmail_def)
  have 3: "\<not> validateEmail (emailValue f)
        \<and> message_textContent (loginSubmit (loginValidation f) f)
            = ''Please fix the highlighted errors.''
        \<and> email_customValidity (loginSubmit (loginValidation f) f)
            = (if trim (emailValue f) = [] then ''Email is required.''
               else ''Please enter a valid email address.'')"
    if h: "CHR ''@'' \<notin> set (emailValue f) \<or> CHR ''.'' \<notin> set (domainPart (emailValue f))"
  proof -
    from h have n: "\<not> validateEmail (emailValue f)"
      by (simp add: validateEmail_def no_at_no_shape)
    then have "\<not> formValid (loginValidation f)" "\<not> emailValidityValid (loginValidation f)"
      by (simp_all add: loginValidation_def)
    with n loginSubmit_invalid [of "loginValidation f" f] show ?thesis
      by simp
  qed
  have 4: "\<not> emailValid (stateFormEvent (EmailInput e (emailInputValidity required e)) s)
        \<and> submit_disabled (stateFormEvent (EmailInput e (emailInputValidity required e)) s)
        \<and> emailError_display (stateFormEvent (EmailInput e (emailInputValidity required e)) s)
            = (if e = [] then ''none'' else ''block'')
        \<and> emailError_textContent (stateFormEvent (EmailInput e (emailInputValidity required e)) s)
            = (if e = [] then emailError_textContent s
               else ''Please enter a valid email address.'')"
    if h: "CHR ''@'' \<notin> set e \<or> CHR ''.'' \<notin> set (domainPart e)"
  proof -
    let ?s = "stateFormEvent (EmailInput e (emailInputValidity required e)) s"
    from h have n: "\<not> emailShape e" by (rule no_at_no_shape)
    with 1 have a: "\<not> emailValid ?s" by (simp del: stateFormEvent.simps)
    have b: "submit_disabled ?s"
      using n by (simp add: Let_def checkFormValidity_def emailValid_def emailInputValidity_def)
    have c: "e \<noteq> [] \<Longrightarrow> \<not> emailInputValidity required e"
      using n by (simp add: emailInputValidity_def)
    from a b c show ?thesis
      by (simp add: emailError_after_input del: stateFormEvent.simps)
  qed
  from 1 2 3 4 show ?thesis by blast
qed

theorem email_validation_reasons_witness:
  "CHR ''@'' \<notin> set (emailValue \<lparr>emailValue = ''tester.example.com'', passwordValue = ''password123''\<rparr>)
   \<and> email_customValidity
        (loginSubmit (loginValidation \<lparr>emailValue = ''tester.example.com'', passwordValue = ''password123''\<rparr>)
           \<lparr>emailValue = ''tester.example.com'', passwordValue = ''password123''\<rparr>)
       = ''Please enter a valid email address.''
   \<and> CHR ''.'' \<notin> set (domainPart ''tester@example'')
   \<and> submit_disabled (stateFormEvent (EmailInput ''tester@example'' (emailInputValidity False ''tester@example'')) emptyStateForm)
   \<and> emailError_display (stateFormEvent (EmailInput ''tester@example'' (emailInputValidity False ''tester@example'')) emptyStateForm)
       = ''block''"
proof -
  let ?f = "\<lparr>emailValue = ''tester.example.com'', passwordValue = ''password123''\<rparr>"
  have a: "CHR ''@'' \<notin> set (emailValue ?f)" by simp
  have t: "trim (emailValue ?f) \<noteq> []" by code_simp
  have b: "CHR ''.'' \<notin> set (domainPart ''tester@example'')" by (simp add: domainPart_def)
  from a t email_validation_reasons [of _ _ _ ?f]
  have 1: "email_customValidity (loginSubmit (loginValidation ?f) ?f)
       = ''Please enter a valid email address.''"
    by simp
  from b email_validation_reasons [of "''tester@example''" False emptyStateForm]
  have 2: "submit_disabled (stateFormEvent (EmailInput ''tester@example'' (emailInputValidity False ''tester@example'')) emptyStateForm)
   \<and> emailError_display (stateFormEvent (EmailInput ''tester@example'' (emailInputValidity False ''tester@example'')) emptyStateForm)
       = ''block''"
    by (simp del: stateFormEvent.simps)
  from a b 1 2 show ?thesis by blast
qed

text \<open>
  The claim as stated fails in the form-state scenario: for the empty value, whether the
  input is required or not, the value is classified invalid and no reason is shown; the
  error element is hidden and its text is not set.
\<close>

theorem email_required_reason_counterexample:
  "\<not> emailValid (stateFormEvent (EmailInput [] (emailInputValidity True [])) emptyStateForm)
   \<and> emailError_display (stateFormEvent (EmailInput [] (emailInputValidity True [])) emptyStateForm)
       = ''none''
   \<and> emailError_textContent (stateFormEvent (EmailInput [] (emailInputValidity True [])) emptyStateForm)
       = []
   \<and> \<not> emailValid (stateFormEvent (EmailInput [] (emailInputValidity False [])) emptyStateForm)
   \<and> emailError_display (stateFormEvent (EmailInput [] (emailInputValidity False [])) emptyStateForm)
       = ''none''
   \<and> emailError_textContent (stateFormEvent (EmailInput [] (emailInputValidity False [])) emptyStateForm)
       = []"
  by (simp add: emailValid_after_input emailError_after_input emptyStateForm_def
        del: stateFormEvent.simps)

section \<open>Properties of the sortable table\<close>

lemma compareRows_Asc:
  "compareRows h Asc i a b =
     (if \<not> isNaN (parseFloat h (trim (a ! i))) \<and> \<not> isNaN (parseFloat h (trim (b ! i)))
      then jsnum_minus (parseFloat h (trim (a ! i))) (parseFloat h (trim (b ! i)))
      else Finite (of_int (localeCompare h (trim (a ! i)) (trim (b ! i)))))"
  by (simp add: compareRows_def Let_def)

lemma compareRows_Desc: "compareRows h Desc i a b = jsnum_uminus (compareRows h Asc i a b)"
  by (simp add: compareRows_def Let_def)

lemma currentSort_headerClick:
  "i < length (headers t) \<Longrightarrow>
     currentSort (fst (headerClick h i t)) = nextSort (currentSort t) (headers t ! i)"
  by (simp add: headerClick_def Let_def split: sum.splits)

text \<open>
  Claim C7. The comparator subtracts the two parsed numbers exactly when both cell texts
  parse (neither result is \<^verbatim>\<open>NaN\<close>) and otherwise takes the result of the locale-aware
  string comparison; for the descending direction it negates that result. A click on the
  header whose key is the current sort field swaps ascending and descending; a click on a
  header with another key makes that key the sort field and the direction ascending.
\<close>

theorem comparator_policy_and_toggle:
  "(\<not> isNaN (parseFloat h (trim (a ! j))) \<and> \<not> isNaN (parseFloat h (trim (b ! j))) \<longrightarrow>
      compareRows h Asc j a b
        = jsnum_minus (parseFloat h (trim (a ! j))) (parseFloat h (trim (b ! j))))
   \<and> (isNaN (parseFloat h (trim (a ! j))) \<or> isNaN (parseFloat h (trim (b ! j))) \<longrightarrow>
      compareRows h Asc j a b = Finite (of_int (localeCompare h (trim (a ! j)) (trim (b ! j)))))
   \<and> compareRows h Desc j a b = jsnum_uminus (compareRows h Asc j a b)
   \<and> (i < length (headers t) \<and> field (currentSort t) = headers t ! i \<longrightarrow>
        currentSort (fst (headerClick h i t))
          = \<lparr>field = headers t ! i,
             direction = (if direction (currentSort t) = Asc then Desc else Asc)\<rparr>)
   \<and> (i < length (headers t) \<and> field (currentSort t) \<noteq> headers t ! i \<longrightarrow>
        currentSort (fst (headerClick h i t)) = \<lparr>field = headers t ! i, direction = Asc\<rparr>)"
  by (simp add: compareRows_Asc compareRows_Desc currentSort_headerClick nextSort_def)

theorem comparator_policy_and_toggle_witness:
  "\<not> isNaN (parseFloat exampleHost (trim ([''Carol'', ''85''] ! 1)))
   \<and> \<not> isNaN (parseFloat exampleHost (trim ([''Alice'', ''92''] ! 1)))
   \<and> compareRows exampleHost Asc 1 [''Carol'', ''85''] [''Alice'', ''92''] = Finite (- 7)
   \<and> compareRows exampleHost Desc 1 [''Carol'', ''85''] [''Alice'', ''92''] = Finite 7
   \<and> isNaN (parseFloat exampleHost (trim ([''Carol'', ''85''] ! 0)))
   \<and> compareRows exampleHost Asc 0 [''Carol'', ''85''] [''Alice'', ''92''] = Finite 1
   \<and> 1 < length (headers exampleTable)
   \<and> field (currentSort exampleTable) \<noteq> headers exampleTable ! 1
   \<and> currentSort (fst (headerClick exampleHost 1 exampleTable))
       = \<lparr>field = Some ''score'', direction = Asc\<rparr>
   \<and> field (currentSort (fst (headerClick exampleHost 1 exampleTable)))
       = headers (fst (headerClick exampleHost 1 exampleTable)) ! 1
   \<and> currentSort (twoClicks exampleHost 1 exampleTable)
       = \<lparr>field = Some ''score'', direction = Desc\<rparr>"
proof -
  let ?c = "[''Carol'', ''85'']" and ?a = "[''Alice'', ''92'']"
  let ?t1 = "fst (headerClick exampleHost 1 exampleTable)"
  have n1: "\<not> isNaN (parseFloat exampleHost (trim (?c ! 1)))
            \<and> \<not> isNaN (parseFloat exampleHost (trim (?a ! 1)))"
    by code_simp
  have v1: "parseFloat exampleHost (trim (?c ! 1)) = Finite 85"
    "parseFloat exampleHost (trim (?a ! 1)) = Finite 92"
    by code_simp+
  have n0: "isNaN (parseFloat exampleHost (trim (?c ! 0)))"
    by code_simp
  have l0: "localeCompare exampleHost (trim (?c ! 0)) (trim (?a ! 0)) = 1"
    by code_simp
  have h1: "1 < length (headers exampleTable)"
    "field (currentSort exampleTable) \<noteq> headers exampleTable ! 1"
    "headers exampleTable ! 1 = Some ''score''"
    by code_simp+
  have h2: "1 < length (headers ?t1)" "headers ?t1 ! 1 = Some ''score''"
    by code_simp+
  note A = comparator_policy_and_toggle [of exampleHost ?c 1 ?a 1 exampleTable]
  note B = comparator_policy_and_toggle [of exampleHost ?c 0 ?a 1 ?t1]
  from n1 v1 A have 1: "compareRows exampleHost Asc 1 ?c ?a = Finite (- 7)"
    by simp
  from A 1 have 2: "compareRows exampleHost Desc 1 ?c ?a = Finite 7"
    by simp
  from n0 l0 B have 3: "compareRows exampleHost Asc 0 ?c ?a = Finite 1"
    by simp
  from h1 A have 4: "currentSort ?t1 = \<lparr>field = Some ''score'', direction = Asc\<rparr>"
    by simp
  with h2 have 5: "field (currentSort ?t1) = headers ?t1 ! 1"
    by simp
  from h2 5 4 B have 6: "currentSort (twoClicks exampleHost 1 exampleTable)
       = \<lparr>field = Some ''score'', direction = Desc\<rparr>"
    by (simp add: twoClicks_def)
  from n1 n0 h1(1,2) 1 2 3 4 5 6 show ?thesis by blast
qed

lemma mset_insertSorted: "mset (insertSorted cmp x ys) = add_mset x (mset ys)"
  by (induction ys) simp_all

lemma mset_Array_sort: "mset (Array_sort cmp xs) = mset xs"
  by (induction xs) (simp_all add: Array_sort_def mset_insertSorted)

lemma set_Array_sort: "set (Array_sort cmp xs) = set xs"
  using mset_Array_sort [of cmp xs] by (metis set_mset_mset)

lemma set_insertSorted: "set (insertSorted cmp x ys) = insert x (set ys)"
  using mset_insertSorted [of cmp x ys] by (metis set_mset_mset set_mset_add_mset_insert)

text \<open>
  When the callback orders the elements of a set by a key, largest first, the sort
  arranges a list of such elements by that key, largest first.
\<close>

lemma sorted_insertSorted:
  fixes key :: "'a \<Rightarrow> real"
  assumes "\<And>a b. a \<in> A \<Longrightarrow> b \<in> A \<Longrightarrow> notAfter (cmp a b) \<longleftrightarrow> key b \<le> key a"
    and "x \<in> A" and "set ys \<subseteq> A"
    and "sorted_wrt (\<lambda>a b. key b \<le> key a) ys"
  shows "sorted_wrt (\<lambda>a b. key b \<le> key a) (insertSorted cmp x ys)"
  using assms(3,4)
proof (induction ys)
  case Nil
  then show ?case by simp
next
  case (Cons y ys)
  show ?case
  proof (cases "notAfter (cmp x y)")
    case True
    with assms(1) [of x y] assms(2) Cons.prems have "key y \<le> key x" by simp
    with Cons.prems True show ?thesis by (auto intro: order_trans)
  next
    case False
    with assms(1) [of x y] assms(2) Cons.prems have "key x \<le> key y" by simp
    with Cons False show ?thesis by (auto simp: set_insertSorted)
  qed
qed

lemma sorted_Array_sort:
  fixes key :: "'a \<Rightarrow> real"
  assumes "\<And>a b. a \<in> A \<Longrightarrow> b \<in> A \<Longrightarrow> notAfter (cmp a b) \<longleftrightarrow> key b \<le> key a"
    and "set xs \<subseteq> A"
  shows "sorted_wrt (\<lambda>a b. key b \<le> key a) (Array_sort cmp xs)"
  using assms(2)
proof (induction xs)
  case Nil
  then show ?case by (simp add: Array_sort_def)
next
  case (Cons x xs)
  then have "sorted_wrt (\<lambda>a b. key b \<le> key a) (Array_sort cmp xs)" by simp
  moreover have "set (Array_sort cmp xs) \<subseteq> A"
    using Cons.prems by (simp add: set_Array_sort)
  moreover have "x \<in> A" using Cons.prems by simp
  ultimately have "sorted_wrt (\<lambda>a b. key b \<le> key a) (insertSorted cmp x (Array_sort cmp xs))"
    using assms(1) by (intro sorted_insertSorted [where A = A]) auto
  then show ?case by (simp add: Array_sort_def)
qed

text \<open>
  The header that was clicked carries its own key, so the lookup of the column always
  finds an index, the first header with that key.
\<close>

lemma findIndex_Some:
  "i < length xs \<Longrightarrow> \<exists>j. findIndex (\<lambda>a. a = xs ! i) xs = Some j \<and> j \<le> i \<and> xs ! j = xs ! i"
proof (induction xs arbitrary: i)
  case Nil
  then show ?case by simp
next
  case (Cons x xs)
  show ?case
  proof (cases i)
    case 0
    then show ?thesis by simp
  next
    case (Suc k)
    with Cons.prems have "k < length xs" by simp
    from Cons.IH [OF this] obtain j
      where "findIndex (\<lambda>a. a = xs ! k) xs = Some j" "j \<le> k" "xs ! j = xs ! k"
      by blast
    with Suc show ?thesis by auto
  qed
qed

lemma sortTable_ok:
  assumes "findIndex (\<lambda>a. a = fld) (headers t) = Some j"
    and "\<forall>r \<in> set (rows t). j < length r"
  shows "sortTable h t fld dir = Inr (Array_sort (compareRows h dir j) (rows t))"
  using assms by (auto simp: sortTable_def list_ex_iff)

lemma headerClick_ok:
  assumes "i < length (headers t)"
    and "findIndex (\<lambda>a. a = headers t ! i) (headers t) = Some j"
    and "\<forall>r \<in> set (rows t). j < length r"
  shows "headerClick h i t =
           (t\<lparr>currentSort := nextSort (currentSort t) (headers t ! i),
              indicators := (map (\<lambda>_. None) (indicators t))
                              [i := Some (direction (nextSort (currentSort t) (headers t ! i)))],
              rows := Array_sort
                        (compareRows h (direction (nextSort (currentSort t) (headers t ! i))) j)
                        (rows t)\<rparr>, None)"
proof -
  let ?cs = "nextSort (currentSort t) (headers t ! i)"
  let ?t1 = "t\<lparr>currentSort := ?cs,
                indicators := (map (\<lambda>_. None) (indicators t))[i := Some (direction ?cs)]\<rparr>"
  have "sortTable h ?t1 (headers t ! i) (direction ?cs)
          = Inr (Array_sort (compareRows h (direction ?cs) j) (rows ?t1))"
    using assms(2,3) by (intro sortTable_ok) simp_all
  then show ?thesis
    using assms(1) by (simp add: headerClick_def Let_def)
qed

lemma compareRows_Desc_numbers:
  assumes "cellNumber h j a = Some x" and "cellNumber h j b = Some y"
  shows "notAfter (compareRows h Desc j a b) \<longleftrightarrow> y \<le> x"
proof -
  from assms have "parseFloat h (trim (a ! j)) = Finite x" "parseFloat h (trim (b ! j)) = Finite y"
    by (auto simp: cellNumber_def split: jsnum.splits)
  then show ?thesis
    by (simp add: compareRows_def Let_def isNaN_def)
qed
text \<open>
  Claim C6, as amended. Two clicks on the header of a column that was not the sorted one,
  in a table whose rows all have a cell in that column, raise no error and leave the
  direction ascending after the first click and descending after the second. After the
  two clicks the table holds the same rows, arranged by the descending sort of the
  ascending sort; when every cell of the column is a number the rows are in descending
  numeric order. This need not be the order before the clicks.
\<close>

theorem two_clicks_sort_descending:
  assumes "i < length (headers t)"
    and "field (currentSort t) \<noteq> headers t ! i"
    and "findIndex (\<lambda>a. a = headers t ! i) (headers t) = Some j"
    and "\<forall>r \<in> set (rows t). j < length r"
  shows "snd (headerClick h i t) = None
     \<and> currentSort (fst (headerClick h i t)) = \<lparr>field = headers t ! i, direction = Asc\<rparr>
     \<and> snd (headerClick h i (fst (headerClick h i t))) = None
     \<and> currentSort (twoClicks h i t) = \<lparr>field = headers t ! i, direction = Desc\<rparr>
     \<and> rows (twoClicks h i t)
         = Array_sort (compareRows h Desc j) (Array_sort (compareRows h Asc j) (rows t))
     \<and> mset (rows (twoClicks h i t)) = mset (rows t)
     \<and> ((\<forall>r \<in> set (rows t). cellNumber h j r \<noteq> None) \<longrightarrow>
          sorted_wrt (descendingNumbers h j) (rows (twoClicks h i t)))"
proof -
  let ?key = "headers t ! i"
  let ?t1 = "fst (headerClick h i t)"
  have cs1: "nextSort (currentSort t) ?key = \<lparr>field = ?key, direction = Asc\<rparr>"
    using assms(2) by (simp add: nextSort_def)
  have c1: "headerClick h i t =
           (t\<lparr>currentSort := \<lparr>field = ?key, direction = Asc\<rparr>,
              indicators := (map (\<lambda>_. None) (indicators t))[i := Some Asc],
              rows := Array_sort (compareRows h Asc j) (rows t)\<rparr>, None)"
    using headerClick_ok [OF assms(1,3,4), of h] by (simp add: cs1)
  then have t1: "headers ?t1 = headers t" "currentSort ?t1 = \<lparr>field = ?key, direction = Asc\<rparr>"
    "rows ?t1 = Array_sort (compareRows h Asc j) (rows t)"
    "indicators ?t1 = (map (\<lambda>_. None) (indicators t))[i := Some Asc]"
    by simp_all
  have cs2: "nextSort (currentSort ?t1) (headers ?t1 ! i) = \<lparr>field = ?key, direction = Desc\<rparr>"
    by (simp add: t1 nextSort_def)
  have "i < length (headers ?t1)"
    and "findIndex (\<lambda>a. a = headers ?t1 ! i) (headers ?t1) = Some j"
    and "\<forall>r \<in> set (rows ?t1). j < length r"
    using assms(1,3,4) by (simp_all add: t1 set_Array_sort)
  from headerClick_ok [OF this, of h]
  have c2: "headerClick h i ?t1 =
           (?t1\<lparr>currentSort := \<lparr>field = ?key, direction = Desc\<rparr>,
              indicators := (map (\<lambda>_. None) (indicators ?t1))[i := Some Desc],
              rows := Array_sort (compareRows h Desc j) (rows ?t1)\<rparr>, None)"
    by (simp add: cs2)
  then have t2: "currentSort (twoClicks h i t) = \<lparr>field = ?key, direction = Desc\<rparr>"
    "rows (twoClicks h i t)
       = Array_sort (compareRows h Desc j) (Array_sort (compareRows h Asc j) (rows t))"
    by (simp_all add: twoClicks_def t1)
  have m: "mset (rows (twoClicks h i t)) = mset (rows t)"
    by (simp add: t2 mset_Array_sort)
  have s: "sorted_wrt (descendingNumbers h j) (rows (twoClicks h i t))"
    if num: "\<forall>r \<in> set (rows t). cellNumber h j r \<noteq> None"
  proof -
    let ?k = "\<lambda>r. case cellNumber h j r of Some x \<Rightarrow> x | None \<Rightarrow> 0"
    have iff: "notAfter (compareRows h Desc j a b) \<longleftrightarrow> ?k b \<le> ?k a"
      if "a \<in> set (rows t)" "b \<in> set (rows t)" for a b
    proof -
      from that num obtain x y where "cellNumber h j a = Some x" "cellNumber h j b = Some y"
        by (meson not_None_eq)
      then show ?thesis by (simp add: compareRows_Desc_numbers)
    qed
    have "set (Array_sort (compareRows h Asc j) (rows t)) \<subseteq> set (rows t)"
      by (simp add: set_Array_sort)
    with iff have "sorted_wrt (\<lambda>a b. ?k b \<le> ?k a) (rows (twoClicks h i t))"
      unfolding t2 by (intro sorted_Array_sort [where A = "set (rows t)"]) auto
    moreover have "descendingNumbers h j a b"
      if "a \<in> set (rows (twoClicks h i t))" "b \<in> set (rows (twoClicks h i t))" "?k b \<le> ?k a"
      for a b
    proof -
      from that(1,2) have "a \<in> set (rows t)" "b \<in> set (rows t)"
        by (simp_all add: t2 set_Array_sort)
      with num obtain x y where "cellNumber h j a = Some x" "cellNumber h j b = Some y"
        by (meson not_None_eq)
      with that(3) show ?thesis by (simp add: descendingNumbers_def)
    qed
    ultimately show ?thesis
      by (rule sorted_wrt_mono_rel [rotated]) auto
  qed
  from c1 c2 t1(2) t2 m s show ?thesis by simp
qed

lemma exampleTable_after_two_clicks:
  "rows (twoClicks exampleHost 1 exampleTable)
     = [[''Alice'', ''92''], [''Carol'', ''85''], [''Bob'', ''78'']]"
  by code_simp

lemma exampleTable_rows:
  "rows exampleTable = [[''Carol'', ''85''], [''Alice'', ''92''], [''Bob'', ''78'']]"
  by code_simp

theorem two_clicks_sort_descending_witness:
  "1 < length (headers exampleTable)
   \<and> field (currentSort exampleTable) \<noteq> headers exampleTable ! 1
   \<and> findIndex (\<lambda>a. a = headers exampleTable ! 1) (headers exampleTable) = Some 1
   \<and> list_all (\<lambda>r. 1 < length r) (rows exampleTable)
   \<and> list_all (\<lambda>r. cellNumber exampleHost 1 r \<noteq> None) (rows exampleTable)
   \<and> currentSort (twoClicks exampleHost 1 exampleTable)
       = \<lparr>field = headers exampleTable ! 1, direction = Desc\<rparr>
   \<and> mset (rows (twoClicks exampleHost 1 exampleTable)) = mset (rows exampleTable)
   \<and> sorted_wrt (descendingNumbers exampleHost 1) (rows (twoClicks exampleHost 1 exampleTable))"
proof -
  have a: "1 < length (headers exampleTable)"
    and b: "field (currentSort exampleTable) \<noteq> headers exampleTable ! 1"
    and c: "findIndex (\<lambda>a. a = headers exampleTable ! 1) (headers exampleTable) = Some 1"
    by code_simp+
  have d: "\<forall>r \<in> set (rows exampleTable). 1 < length r"
    by (simp add: exampleTable_rows)
  have n: "cellNumber exampleHost 1 [''Carol'', ''85''] \<noteq> None"
    "cellNumber exampleHost 1 [''Alice'', ''92''] \<noteq> None"
    "cellNumber exampleHost 1 [''Bob'', ''78''] \<noteq> None"
    by code_simp+
  then have e: "\<forall>r \<in> set (rows exampleTable). cellNumber exampleHost 1 r \<noteq> None"
    by (simp add: exampleTable_rows)
  from two_clicks_sort_descending [OF a b c d, of exampleHost] e
  have "currentSort (twoClicks exampleHost 1 exampleTable)
       = \<lparr>field = headers exampleTable ! 1, direction = Desc\<rparr>
   \<and> mset (rows (twoClicks exampleHost 1 exampleTable)) = mset (rows exampleTable)
   \<and> sorted_wrt (descendingNumbers exampleHost 1) (rows (twoClicks exampleHost 1 exampleTable))"
    by blast
  with a b c d e show ?thesis by (simp add: list_all_iff)
qed

text \<open>
  The claim as stated fails on the table of three students: two clicks on the score
  header leave the rows in descending order of the score, which is not the order the
  table had before.
\<close>

theorem two_clicks_restore_order_counterexample:
  "rows exampleTable = [[''Carol'', ''85''], [''Alice'', ''92''], [''Bob'', ''78'']]
   \<and> rows (twoClicks exampleHost 1 exampleTable)
       = [[''Alice'', ''92''], [''Carol'', ''85''], [''Bob'', ''78'']]
   \<and> direction (currentSort (twoClicks exampleHost 1 exampleTable)) = Desc
   \<and> rows (twoClicks exampleHost 1 exampleTable) \<noteq> rows exampleTable"
proof -
  have "direction (currentSort (twoClicks exampleHost 1 exampleTable)) = Desc"
    by code_simp
  with exampleTable_after_two_clicks exampleTable_rows show ?thesis
    by simp
qed

section \<open>Properties of the pagination\<close>

lemma totalPages_3: "totalPages = 3"
  by (simp add: totalPages_def allData_def itemsPerPage_def)

lemma renderPage_frame:
  "currentPage (renderPage s) = currentPage s"
  "has_body (renderPage s) = has_body s"
  "has_info (renderPage s) = has_info s"
  "has_prev (renderPage s) = has_prev s"
  "has_next (renderPage s) = has_next s"
  by (simp_all add: renderPage_def Let_def)

lemma renderPage_rendered:
  "1 \<le> currentPage s \<Longrightarrow> currentPage s \<le> totalPages \<Longrightarrow> rendered (renderPage s)"
  by (simp add: rendered_def renderPage_def Let_def)

lemma pageClick_frame:
  "has_body (pageClick b s) = has_body s"
  "has_info (pageClick b s) = has_info s"
  "has_prev (pageClick b s) = has_prev s"
  "has_next (pageClick b s) = has_next s"
  by (cases b; simp add: renderPage_frame)+

lemma pageClick_rendered: "rendered s \<Longrightarrow> rendered (pageClick b s)"
proof (cases b)
  case PrevPage
  assume r: "rendered s"
  show ?thesis
  proof (cases "has_prev s \<and> currentPage s > 1")
    case True
    with r have "rendered (renderPage (s\<lparr>currentPage := currentPage s - 1\<rparr>))"
      by (intro renderPage_rendered) (simp_all add: rendered_def)
    with True PrevPage show ?thesis by simp
  next
    case False
    with r PrevPage show ?thesis by auto
  qed
next
  case NextPage
  assume r: "rendered s"
  show ?thesis
  proof (cases "has_next s \<and> currentPage s < totalPages")
    case True
    with r have "rendered (renderPage (s\<lparr>currentPage := currentPage s + 1\<rparr>))"
      by (intro renderPage_rendered) (simp_all add: rendered_def)
    with True NextPage show ?thesis by simp
  next
    case False
    with r NextPage show ?thesis by auto
  qed
qed

lemma clicks_rendered: "rendered s \<Longrightarrow> rendered (clicks bs s)"
  by (induction bs arbitrary: s) (simp_all add: clicks_def pageClick_rendered)

lemma clicks_frame:
  "has_body (clicks bs s) = has_body s \<and> has_prev (clicks bs s) = has_prev s
   \<and> has_next (clicks bs s) = has_next s"
  by (induction bs arbitrary: s) (simp_all add: clicks_def pageClick_frame)

lemma setup_rendered: "rendered (setupPaginationScenario loaded)"
  unfolding setupPaginationScenario_def
  by (rule renderPage_rendered) (simp_all add: totalPages_3)

lemma setup_frame:
  "has_body (setupPaginationScenario loaded) = has_body loaded"
  "has_prev (setupPaginationScenario loaded) = has_prev loaded"
  "has_next (setupPaginationScenario loaded) = has_next loaded"
  "currentPage (setupPaginationScenario loaded) = 1"
  by (simp_all add: setupPaginationScenario_def renderPage_frame)

lemma first_page_items:
  "slice allData ((1 - 1) * itemsPerPage) ((1 - 1) * itemsPerPage + itemsPerPage) = take 5 allData"
  by (simp add: slice_def itemsPerPage_def allData_def)

text \<open>
  Claim C8. The 15 items at 5 per page make \<open>\<lceil>15 / 5\<rceil> = 3\<close> pages. On a page that has
  the table body, the setup shows the first five items, with the ids 1 to 5. After the
  setup and any sequence of clicks the page number lies between 1 and 3; on a page that
  has the body and both buttons, the body shows the slice of the current page,
  \<^verbatim>\<open>previous\<close> is disabled exactly on page 1 and \<^verbatim>\<open>next\<close> exactly on page 3.
\<close>

theorem pagination_three_pages:
  "totalPages = \<lceil>15 / 5 :: real\<rceil> \<and> totalPages = 3
   \<and> (has_body loaded \<longrightarrow>
        body_items (setupPaginationScenario loaded) = take 5 allData
        \<and> map item_id (body_items (setupPaginationScenario loaded)) = [1, 2, 3, 4, 5])
   \<and> 1 \<le> currentPage (clicks bs (setupPaginationScenario loaded))
   \<and> currentPage (clicks bs (setupPaginationScenario loaded)) \<le> 3
   \<and> (has_body loaded \<and> has_prev loaded \<and> has_next loaded \<longrightarrow>
        (prev_disabled (clicks bs (setupPaginationScenario loaded))
           \<longleftrightarrow> currentPage (clicks bs (setupPaginationScenario loaded)) = 1)
        \<and> (next_disabled (clicks bs (setupPaginationScenario loaded))
           \<longleftrightarrow> currentPage (clicks bs (setupPaginationScenario loaded)) = 3)
        \<and> body_items (clicks bs (setupPaginationScenario loaded))
            = slice allData ((currentPage (clicks bs (setupPaginationScenario loaded)) - 1) * 5)
                ((currentPage (clicks bs (setupPaginationScenario loaded)) - 1) * 5 + 5))"
proof -
  let ?init = "setupPaginationScenario loaded"
  let ?cur = "clicks bs ?init"
  have 1: "totalPages = \<lceil>15 / 5 :: real\<rceil>" "totalPages = 3"
    by (simp_all add: totalPages_3)
  have 2: "body_items ?init = take 5 allData \<and> map item_id (body_items ?init) = [1, 2, 3, 4, 5]"
    if "has_body loaded"
  proof -
    from that setup_rendered [of loaded] have "body_items ?init = take 5 allData"
      using first_page_items by (simp add: rendered_def setup_frame)
    then show ?thesis by (simp add: allData_def)
  qed
  have r: "rendered ?cur"
    by (intro clicks_rendered setup_rendered)
  then have 3: "1 \<le> currentPage ?cur" "currentPage ?cur \<le> 3"
    by (simp_all add: rendered_def totalPages_3)
  have 4: "(prev_disabled ?cur \<longleftrightarrow> currentPage ?cur = 1)
        \<and> (next_disabled ?cur \<longleftrightarrow> currentPage ?cur = 3)
        \<and> body_items ?cur = slice allData ((currentPage ?cur - 1) * 5) ((currentPage ?cur - 1) * 5 + 5)"
    if "has_body loaded \<and> has_prev loaded \<and> has_next loaded"
  proof -
    from that have "has_body ?cur" "has_prev ?cur" "has_next ?cur"
      by (simp_all add: clicks_frame setup_frame)
    with r show ?thesis
      by (simp add: rendered_def totalPages_3 itemsPerPage_def)
  qed
  from 1 2 3 4 show ?thesis by blast
qed

theorem pagination_three_pages_witness:
  "has_body paginationPage \<and> has_prev paginationPage \<and> has_next paginationPage
   \<and> map item_id (body_items (setupPaginationScenario paginationPage)) = [1, 2, 3, 4, 5]
   \<and> prev_disabled (clicks [] (setupPaginationScenario paginationPage))
   \<and> \<not> next_disabled (clicks [] (setupPaginationScenario paginationPage))
   \<and> currentPage (clicks [NextPage, NextPage, NextPage] (setupPaginationScenario paginationPage)) = 3
   \<and> next_disabled (clicks [NextPage, NextPage, NextPage] (setupPaginationScenario paginationPage))
   \<and> \<not> prev_disabled (clicks [NextPage, NextPage, NextPage] (setupPaginationScenario paginationPage))"
proof -
  let ?init = "setupPaginationScenario paginationPage"
  have h: "has_body paginationPage \<and> has_prev paginationPage \<and> has_next paginationPage"
    by (simp add: paginationPage_def)
  have p1: "currentPage (clicks [] ?init) = 1"
    by (simp add: clicks_def setup_frame)
  have p3: "currentPage (clicks [NextPage, NextPage, NextPage] ?init) = 3"
    by (simp add: clicks_def setup_frame renderPage_frame totalPages_3 paginationPage_def)
  from h pagination_three_pages [of paginationPage "[]"]
  have a: "map item_id (body_items ?init) = [1, 2, 3, 4, 5]
     \<and> (prev_disabled (clicks [] ?init) \<longleftrightarrow> currentPage (clicks [] ?init) = 1)
     \<and> (next_disabled (clicks [] ?init) \<longleftrightarrow> currentPage (clicks [] ?init) = 3)"
    by blast
  from h pagination_three_pages [of paginationPage "[NextPage, NextPage, NextPage]"]
  have b: "(prev_disabled (clicks [NextPage, NextPage, NextPage] ?init)
              \<longleftrightarrow> currentPage (clicks [NextPage, NextPage, NextPage] ?init) = 1)
     \<and> (next_disabled (clicks [NextPage, NextPage, NextPage] ?init)
              \<longleftrightarrow> currentPage (clicks [NextPage, NextPage, NextPage] ?init) = 3)"
    by blast
  from h a b p1 p3 show ?thesis by simp
qed

section \<open>Properties of the page initialisation\<close>

text \<open>
  Claim C9. On a page with the search input and without the students table, the
  \<^verbatim>\<open>setupStudentFilter\<close> of lines 95 to 125 returns without a listener and without an
  error. The \<^verbatim>\<open>setupStudentFilter\<close> of lines 1072 to 1100 raises a \<^verbatim>\<open>TypeError\<close> there, which
  ends the listener of \<^verbatim>\<open>DOMContentLoaded\<close> before \<^verbatim>\<open>setupQuizForm\<close> runs, so a quiz form on
  that page gets no submit listener; without the search input the same page initialises.
\<close>

theorem missing_table_breaks_initialisation:
  "setupStudentFilter {''search-input'', ''quiz-form''} = Inr []
   \<and> setupStudentFilter' {''search-input'', ''quiz-form''} = Inl TypeError
   \<and> DOMContentLoaded' {''search-input'', ''quiz-form''} = Inl TypeError
   \<and> DOMContentLoaded' {''quiz-form''} = Inr [QuizSubmit]"
  by (simp add: setupStudentFilter_def setupStudentFilter'_def DOMContentLoaded'_def
      setupLoginForm_def setupQuizForm_def andThen_def getElementById_def)

end
